theory Spec2Isabelle
  imports Main
begin

section \<open>Go values\<close>

text \<open>
  The migration code of \<^verbatim>\<open>package accesscontrol\<close> (the second file of
  \<^verbatim>\<open>notifications.go\<close>) works on Go \<^verbatim>\<open>int\<close> and \<^verbatim>\<open>int64\<close>
  values. They are modelled by their mathematical value, an \<open>int\<close> between \<open>minInt\<close>
  and \<open>maxInt\<close>; the one addition the code performs on them (\<^verbatim>\<open>i + batchSize\<close> in
  \<^verbatim>\<open>batch\<close>) wraps around as on a 64-bit platform.
\<close>

definition maxInt :: int where
  "maxInt = 9223372036854775807"

definition minInt :: int where
  "minInt = - 9223372036854775808"

definition go_add :: "int \<Rightarrow> int \<Rightarrow> int" where
  "go_add a b = signed_take_bit 63 (a + b)"

text \<open>
  Errors are values. Every \<^verbatim>\<open>return err\<close> of the code is a branch of the model; a
  run-time panic (index or slice bounds out of range) unwinds through all callers, none
  of which recovers, and is a value of the same type.
\<close>

datatype error =
    ErrUnknownRole string
  | Errorf string
  | ErrSyntax string
  | ErrRange string
  | StorageError string
  | PanicIndexOutOfRange int nat
  | PanicSliceBounds int int nat

section \<open>batch\<close>

text \<open>
  \<^verbatim>\<open>func batch(count, batchSize int, eachFn func(start, end int) error) error\<close> (the parameter \<^verbatim>\<open>batchSize\<close> is \<open>bsize\<close> here; the package variable keeps the name).
  The callback closes over mutable state, so it is a state transformer that also returns
  its error. The loop has no bound of its own (with \<^verbatim>\<open>batchSize = 0\<close> it never
  advances), so not returning is the value \<open>None\<close>.
\<close>

partial_function (option) batch_loop ::
  "int \<Rightarrow> int \<Rightarrow> int \<Rightarrow> (int \<Rightarrow> int \<Rightarrow> 's \<Rightarrow> error option \<times> 's) \<Rightarrow> 's
    \<Rightarrow> (error option \<times> 's) option" where
  "batch_loop i count bsize eachFn s =
     (if i < count then
        (let end0 = go_add i bsize;
             end1 = (if end0 > count then count else end0)
         in case eachFn i end1 s of
              (Some err, s') \<Rightarrow> Some (Some err, s')
            | (None, s') \<Rightarrow> batch_loop end1 count bsize eachFn s')
      else Some (None, s))"

declare batch_loop.simps [code]

definition batch ::
  "int \<Rightarrow> int \<Rightarrow> (int \<Rightarrow> int \<Rightarrow> 's \<Rightarrow> error option \<times> 's) \<Rightarrow> 's
    \<Rightarrow> (error option \<times> 's) option" where
  "batch count bsize eachFn s = batch_loop 0 count bsize eachFn s"

text \<open>
  The specification's reading of the Batcher: the windows \<open>[start, end)\<close> of width
  \<open>bsize\<close> (the last one shorter) from \<open>i\<close> up to \<open>count\<close>, and the run of a
  callback over a list of windows in order that stops at the first error.
\<close>

function windows_from :: "int \<Rightarrow> int \<Rightarrow> int \<Rightarrow> (int \<times> int) list" where
  "windows_from i count bsize =
     (if i < count \<and> 0 < bsize
      then (i, min (i + bsize) count) # windows_from (min (i + bsize) count) count bsize
      else [])"
  by pat_completeness auto
termination
  by (relation "measure (\<lambda>(i, count, bsize). nat (count - i))") auto

fun run_windows ::
  "(int \<Rightarrow> int \<Rightarrow> 's \<Rightarrow> error option \<times> 's) \<Rightarrow> (int \<times> int) list \<Rightarrow> 's \<Rightarrow> error option \<times> 's" where
  "run_windows eachFn [] s = (None, s)"
| "run_windows eachFn ((a, b) # ws) s =
     (case eachFn a b s of
        (Some err, s') \<Rightarrow> (Some err, s')
      | (None, s') \<Rightarrow> run_windows eachFn ws s')"

text \<open>A callback that records the windows it is given and never fails.\<close>

definition record_window :: "int \<Rightarrow> int \<Rightarrow> (int \<times> int) list \<Rightarrow> error option \<times> (int \<times> int) list" where
  "record_window a b log = (None, log @ [(a, b)])"

text \<open>A callback that records its windows and fails on a window that ends before it starts.\<close>

definition checked_window :: "int \<Rightarrow> int \<Rightarrow> (int \<times> int) list \<Rightarrow> error option \<times> (int \<times> int) list" where
  "checked_window a b log =
     (if b < a then Some (PanicSliceBounds a b 0) else None, log @ [(a, b)])"

section \<open>Strings and slices\<close>

text \<open>
  Go strings are byte sequences; \<open>string\<close> is a list of bytes. The library functions
  the code calls are modelled after the Go standard library: \<^verbatim>\<open>strings.HasPrefix\<close>,
  \<^verbatim>\<open>strings.Split\<close> with a one-byte separator, \<^verbatim>\<open>strconv.ParseInt(s, 10, 64)\<close>
  and \<^verbatim>\<open>strings.Title\<close>.
\<close>

definition HasPrefix :: "string \<Rightarrow> string \<Rightarrow> bool" where
  "HasPrefix s prefix = (length prefix \<le> length s \<and> take (length prefix) s = prefix)"

fun Split :: "string \<Rightarrow> char \<Rightarrow> string list" where
  "Split [] sep = [[]]"
| "Split (c # cs) sep =
     (if c = sep then [] # Split cs sep
      else (case Split cs sep of [] \<Rightarrow> [[c]] | w # ws \<Rightarrow> (c # w) # ws))"

definition is_digit :: "char \<Rightarrow> bool" where
  "is_digit c = (48 \<le> (of_char c :: nat) \<and> (of_char c :: nat) \<le> 57)"

definition is_lower :: "char \<Rightarrow> bool" where
  "is_lower c = (97 \<le> (of_char c :: nat) \<and> (of_char c :: nat) \<le> 122)"

definition is_upper :: "char \<Rightarrow> bool" where
  "is_upper c = (65 \<le> (of_char c :: nat) \<and> (of_char c :: nat) \<le> 90)"

definition maxUint64 :: int where
  "maxUint64 = 18446744073709551615"

text \<open>
  The digit loop of \<^verbatim>\<open>strconv.ParseUint\<close> in base 10: a byte that is not a digit is
  a syntax error, a value that leaves the 64-bit range a range error, whichever comes
  first from the left. The error carries the string \<^verbatim>\<open>ParseInt\<close> was given.
\<close>

fun ParseUint_loop :: "string \<Rightarrow> string \<Rightarrow> int \<Rightarrow> error + int" where
  "ParseUint_loop s0 [] n = Inr n"
| "ParseUint_loop s0 (c # cs) n =
     (if \<not> is_digit c then Inl (ErrSyntax s0)
      else if n \<ge> maxUint64 div 10 + 1 then Inl (ErrRange s0)
      else (let n1 = n * 10 + (int (of_char c) - 48)
            in if n1 > maxUint64 then Inl (ErrRange s0) else ParseUint_loop s0 cs n1))"

definition ParseInt :: "string \<Rightarrow> error + int" where
  "ParseInt s0 =
     (if s0 = [] then Inl (ErrSyntax s0)
      else
        (let neg = (hd s0 = CHR ''-'');
             s = (if hd s0 = CHR ''+'' \<or> hd s0 = CHR ''-'' then tl s0 else s0)
         in if s = [] then Inl (ErrSyntax s0)
            else (case ParseUint_loop s0 s 0 of
                    Inl err \<Rightarrow> Inl err
                  | Inr un \<Rightarrow>
                      if \<not> neg \<and> un \<ge> 2 ^ 63 then Inl (ErrRange s0)
                      else if neg \<and> un > 2 ^ 63 then Inl (ErrRange s0)
                      else Inr (if neg then - un else un))))"

text \<open>
  \<^verbatim>\<open>strings.Title\<close> walks the runes of its argument, with the previous rune starting
  as a space, and maps a rune that follows a separator through \<^verbatim>\<open>unicode.ToTitle\<close>. On a
  string of ASCII bytes every rune is one byte, a separator is a byte that is not a
  letter, a digit or an underscore, and \<^verbatim>\<open>unicode.ToTitle\<close> turns \<open>a\<close> to \<open>z\<close> into
  \<open>A\<close> to \<open>Z\<close> and nothing else: this part is modelled in full. On any other string the
  result depends on the UTF-8 decoder and the Unicode tables of the library (letters,
  digits and spaces beyond ASCII, their title case, the replacement rune for an invalid
  byte), which are not modelled: there the result is what the parameter \<open>unicodeTitle\<close>,
  standing for the library, returns.
\<close>

definition is_ascii :: "string \<Rightarrow> bool" where
  "is_ascii s = (\<forall>c \<in> set s. (of_char c :: nat) \<le> 127)"

definition isSeparator :: "char \<Rightarrow> bool" where
  "isSeparator c =
     ((of_char c :: nat) \<le> 127 \<and> \<not> (is_digit c \<or> is_lower c \<or> is_upper c \<or> c = CHR ''_''))"

definition ToTitle :: "char \<Rightarrow> char" where
  "ToTitle c = (if is_lower c then char_of ((of_char c :: nat) - 32) else c)"

fun Title_loop :: "char \<Rightarrow> string \<Rightarrow> string" where
  "Title_loop prev [] = []"
| "Title_loop prev (c # cs) = (if isSeparator prev then ToTitle c else c) # Title_loop c cs"

definition Title :: "(string \<Rightarrow> string) \<Rightarrow> string \<Rightarrow> string" where
  "Title unicodeTitle s =
     (if is_ascii s then Title_loop (CHR '' '') s else unicodeTitle s)"

text \<open>
  Indexing and slicing check their bounds and panic. (Go checks the upper bound of a
  slice expression against the capacity; the model checks it against the length, which
  the code never exceeds.)
\<close>

definition go_index :: "'a list \<Rightarrow> nat \<Rightarrow> error + 'a" where
  "go_index xs i =
     (if i < length xs then Inr (xs ! i) else Inl (PanicIndexOutOfRange (int i) (length xs)))"

definition go_slice :: "'a list \<Rightarrow> int \<Rightarrow> int \<Rightarrow> error + 'a list" where
  "go_slice xs lo hi =
     (if 0 \<le> lo \<and> lo \<le> hi \<and> hi \<le> int (length xs)
      then Inr (take (nat (hi - lo)) (drop (nat lo) xs))
      else Inl (PanicSliceBounds lo hi (length xs)))"

section \<open>Data model\<close>

text \<open>
  \<^verbatim>\<open>accesscontrol.Role\<close>, \<^verbatim>\<open>UserRole\<close>, \<^verbatim>\<open>TeamRole\<close> and \<^verbatim>\<open>BuiltinRole\<close>
  are declared outside the files at hand; the records carry the fields the code reads
  and writes and the specification's data model lists. A \<^verbatim>\<open>time.Time\<close> is an
  instant, an \<open>int\<close>. A \<^verbatim>\<open>*Role\<close> is modelled by the role it points to (the code
  never compares or stores a nil role).
\<close>

type_synonym time = int

record Role =
  ID :: int
  OrgID :: int
  Version :: int
  UID :: string
  Name :: string
  Updated :: time
  Created :: time

record UserRole =
  u_OrgID :: int
  u_RoleID :: int
  UserID :: int
  u_Created :: time

record TeamRole =
  t_OrgID :: int
  t_RoleID :: int
  TeamID :: int
  t_Created :: time

record BuiltinRole =
  b_RoleID :: int
  b_OrgID :: int
  b_Role :: string
  b_Updated :: time
  b_Created :: time

definition zero_Role :: Role where
  "zero_Role = \<lparr>ID = 0, OrgID = 0, Version = 0, UID = [], Name = [], Updated = 0, Created = 0\<rparr>"

definition batchSize :: int where
  "batchSize = 500"

definition MySQL :: string where
  "MySQL = ''mysql''"

section \<open>The session\<close>

text \<open>
  The \<^verbatim>\<open>xorm\<close> session, the dialect, the clock and the UID generator are outside the
  code. The model takes them as a record of operations on a state \<open>'s\<close> of the outside
  world, one operation for each statement the code issues:
  \<^item> \<open>role_by_name\<close>: \<^verbatim>\<open>Table("role").Where("org_id = ? AND name = ?", ...).Get(&role)\<close>,
    the row read, if there is one;
  \<^item> \<open>role_uid_exists\<close>: \<^verbatim>\<open>Where("org_id=? AND uid=?", ...).Get(&Role{})\<close>;
  \<^item> \<open>insert_roles_returning\<close>: the \<^verbatim>\<open>INSERT INTO role ... RETURNING id, org_id, name\<close>
    statement and its \<^verbatim>\<open>Find\<close>;
  \<^item> \<open>insert_roles\<close>: \<^verbatim>\<open>Table("role").Insert(&roles)\<close>;
  \<^item> \<open>find_roles_by_uid\<close>: \<^verbatim>\<open>Table("role").Where("(org_id = ? AND uid = ?) OR ...").Find\<close>;
  \<^item> \<open>insert_user_roles\<close>, \<open>insert_team_roles\<close>, \<open>insert_builtin_roles\<close>: the three
    \<^verbatim>\<open>InsertMulti\<close> calls.
\<close>

record 's Session =
  DriverName :: string
  GenerateShortUID :: "'s \<Rightarrow> string \<times> 's"
  Now :: "'s \<Rightarrow> time \<times> 's"
  role_by_name :: "int \<Rightarrow> string \<Rightarrow> 's \<Rightarrow> (error + Role option) \<times> 's"
  role_uid_exists :: "int \<Rightarrow> string \<Rightarrow> 's \<Rightarrow> (error + bool) \<times> 's"
  insert_roles_returning :: "Role list \<Rightarrow> 's \<Rightarrow> (error + Role list) \<times> 's"
  insert_roles :: "Role list \<Rightarrow> 's \<Rightarrow> error option \<times> 's"
  find_roles_by_uid :: "(int \<times> string) list \<Rightarrow> 's \<Rightarrow> (error + Role list) \<times> 's"
  insert_user_roles :: "UserRole list \<Rightarrow> 's \<Rightarrow> error option \<times> 's"
  insert_team_roles :: "TeamRole list \<Rightarrow> 's \<Rightarrow> error option \<times> 's"
  insert_builtin_roles :: "BuiltinRole list \<Rightarrow> 's \<Rightarrow> error option \<times> 's"

section \<open>findRole and generateNewRoleUID\<close>


text \<open>
  \<^verbatim>\<open>for i := 0; i < 3; i++\<close>: the loop is run on the number of attempts left.
\<close>

fun generateNewRoleUID_loop :: "'s Session \<Rightarrow> int \<Rightarrow> nat \<Rightarrow> 's \<Rightarrow> (error + string) \<times> 's" where
  "generateNewRoleUID_loop sess orgID 0 s = (Inl (Errorf ''failed to generate uid''), s)"
| "generateNewRoleUID_loop sess orgID (Suc left) s =
     (case GenerateShortUID sess s of
        (uid, s1) \<Rightarrow>
          (case role_uid_exists sess orgID uid s1 of
             (Inl err, s2) \<Rightarrow> (Inl err, s2)
           | (Inr exists, s2) \<Rightarrow>
               if \<not> exists then (Inr uid, s2) else generateNewRoleUID_loop sess orgID left s2))"

definition generateNewRoleUID :: "'s Session \<Rightarrow> int \<Rightarrow> 's \<Rightarrow> (error + string) \<times> 's" where
  "generateNewRoleUID sess orgID s = generateNewRoleUID_loop sess orgID 3 s"

section \<open>Creating roles\<close>

text \<open>
  \<^verbatim>\<open>createRoles\<close> draws a UID for each role, then issues one insert statement whose
  rows are \<open>(org_id, uid, name, 1, ts, ts)\<close>; its result is whatever the statement
  returns. A failed UID generation returns before any statement is issued.
\<close>

fun createRoles_args :: "'s Session \<Rightarrow> time \<Rightarrow> Role list \<Rightarrow> 's \<Rightarrow> (error + Role list) \<times> 's" where
  "createRoles_args sess ts [] s = (Inr [], s)"
| "createRoles_args sess ts (r # rs) s =
     (case generateNewRoleUID sess (OrgID r) s of
        (Inl err, s1) \<Rightarrow> (Inl err, s1)
      | (Inr uid, s1) \<Rightarrow>
          (case createRoles_args sess ts rs s1 of
             (Inl err, s2) \<Rightarrow> (Inl err, s2)
           | (Inr rows, s2) \<Rightarrow>
               (Inr (\<lparr>ID = 0, OrgID = OrgID r, Version = 1, UID = uid, Name = Name r,
                       Updated = ts, Created = ts\<rparr> # rows), s2)))"

definition createRoles ::
  "'s Session \<Rightarrow> Role list \<Rightarrow> int \<Rightarrow> int \<Rightarrow> 's \<Rightarrow> (error + Role list) \<times> 's" where
  "createRoles sess roles start end' s =
     (case Now sess s of
        (ts, s0) \<Rightarrow>
          (case createRoles_args sess ts roles s0 of
             (Inl err, s1) \<Rightarrow> (Inl err, s1)
           | (Inr rows, s1) \<Rightarrow> insert_roles_returning sess rows s1))"

text \<open>
  \<^verbatim>\<open>createRolesMySQL\<close> writes the UID and the two timestamps into each role it was
  given, leaving every other field (the version among them) as the caller set it,
  inserts the roles and reads them back by their \<open>(org_id, uid)\<close> pairs. (The roles are
  updated in place through their pointers; the model passes the updated roles on and
  does not return them to the caller.)
\<close>

fun createRolesMySQL_roles :: "'s Session \<Rightarrow> time \<Rightarrow> Role list \<Rightarrow> 's \<Rightarrow> (error + Role list) \<times> 's" where
  "createRolesMySQL_roles sess ts [] s = (Inr [], s)"
| "createRolesMySQL_roles sess ts (r # rs) s =
     (case generateNewRoleUID sess (OrgID r) s of
        (Inl err, s1) \<Rightarrow> (Inl err, s1)
      | (Inr uid, s1) \<Rightarrow>
          (case createRolesMySQL_roles sess ts rs s1 of
             (Inl err, s2) \<Rightarrow> (Inl err, s2)
           | (Inr rows, s2) \<Rightarrow> (Inr (r\<lparr>UID := uid, Created := ts, Updated := ts\<rparr> # rows), s2)))"

definition createRolesMySQL ::
  "'s Session \<Rightarrow> Role list \<Rightarrow> int \<Rightarrow> int \<Rightarrow> 's \<Rightarrow> (error + Role list) \<times> 's" where
  "createRolesMySQL sess roles start end' s =
     (case Now sess s of
        (ts, s0) \<Rightarrow>
          (case createRolesMySQL_roles sess ts roles s0 of
             (Inl err, s1) \<Rightarrow> (Inl err, s1)
           | (Inr rows, s1) \<Rightarrow>
               (case insert_roles sess rows s1 of
                  (Some err, s2) \<Rightarrow> (Inl err, s2)
                | (None, s2) \<Rightarrow> find_roles_by_uid sess (map (\<lambda>r. (OrgID r, UID r)) rows) s2)))"

text \<open>
  \<^verbatim>\<open>bulkCreateRoles\<close> returns the roles collected so far together with the error of
  \<^verbatim>\<open>batch\<close>. The callback appends to \<^verbatim>\<open>allCreatedRoles\<close>, so its state is that
  slice and the outside world.
\<close>

definition bulkCreateRoles_each ::
  "'s Session \<Rightarrow> Role list \<Rightarrow> int \<Rightarrow> int \<Rightarrow> Role list \<times> 's \<Rightarrow> error option \<times> (Role list \<times> 's)" where
  "bulkCreateRoles_each sess allRoles start end' st =
     (case st of
        (allCreatedRoles, s) \<Rightarrow>
          (case go_slice allRoles start end' of
             Inl p \<Rightarrow> (Some p, (allCreatedRoles, s))
           | Inr roles \<Rightarrow>
               (case (if DriverName sess = MySQL then createRolesMySQL sess roles start end' s
                      else createRoles sess roles start end' s) of
                  (Inl err, s') \<Rightarrow> (Some err, (allCreatedRoles, s'))
                | (Inr createdRoles, s') \<Rightarrow> (None, (allCreatedRoles @ createdRoles, s')))))"

definition bulkCreateRoles ::
  "'s Session \<Rightarrow> Role list \<Rightarrow> 's \<Rightarrow> ((Role list \<times> error option) \<times> 's) option" where
  "bulkCreateRoles sess allRoles s =
     (if length allRoles = 0 then Some (([], None), s)
      else
        (case batch (int (length allRoles)) batchSize (bulkCreateRoles_each sess allRoles) ([], s) of
           None \<Rightarrow> None
         | Some (err, (allCreatedRoles, s')) \<Rightarrow> Some ((allCreatedRoles, err), s')))"

section \<open>Assigning roles\<close>

text \<open>
  \<^verbatim>\<open>rolesMap[orgID][name]\<close> reads a map of maps; a missing organisation reads as an
  empty inner map. Go ranges over the \<^verbatim>\<open>assignments\<close> map in an order of its own
  choosing, so the assignments are given as the list of organisations in the order the
  run visits them, each with its names in the order they are visited.
\<close>

type_synonym RolesMap = "int \<Rightarrow> (string \<Rightarrow> Role option) option"

definition lookup_role :: "RolesMap \<Rightarrow> int \<Rightarrow> string \<Rightarrow> Role option" where
  "lookup_role rolesMap orgID name =
     (case rolesMap orgID of None \<Rightarrow> None | Some roles \<Rightarrow> roles name)"

record Buckets =
  userRoleAssignments :: "UserRole list"
  teamRoleAssignments :: "TeamRole list"
  builtInRoleAssignments :: "BuiltinRole list"

definition no_assignments :: Buckets where
  "no_assignments =
     \<lparr>userRoleAssignments = [], teamRoleAssignments = [], builtInRoleAssignments = []\<rparr>"

text \<open>The body of the inner loop, for one name of one organisation.\<close>

definition assign_name ::
  "(string \<Rightarrow> string) \<Rightarrow> RolesMap \<Rightarrow> time \<Rightarrow> int \<Rightarrow> string \<Rightarrow> Buckets \<Rightarrow> error + Buckets" where
  "assign_name unicodeTitle rolesMap ts orgID name b =
     (case lookup_role rolesMap orgID name of
        None \<Rightarrow> Inl (ErrUnknownRole name)
      | Some role \<Rightarrow>
          if HasPrefix name ''managed:users'' then
            (case go_index (Split name (CHR '':'')) 2 of
               Inl p \<Rightarrow> Inl p
             | Inr seg \<Rightarrow>
                 (case ParseInt seg of
                    Inl err \<Rightarrow> Inl err
                  | Inr userID \<Rightarrow>
                      Inr (b\<lparr>userRoleAssignments := userRoleAssignments b @
                             [\<lparr>u_OrgID = OrgID role, u_RoleID = ID role, UserID = userID,
                               u_Created = ts\<rparr>]\<rparr>)))
          else if HasPrefix name ''managed:teams'' then
            (case go_index (Split name (CHR '':'')) 2 of
               Inl p \<Rightarrow> Inl p
             | Inr seg \<Rightarrow>
                 (case ParseInt seg of
                    Inl err \<Rightarrow> Inl err
                  | Inr teamID \<Rightarrow>
                      Inr (b\<lparr>teamRoleAssignments := teamRoleAssignments b @
                             [\<lparr>t_OrgID = OrgID role, t_RoleID = ID role, TeamID = teamID,
                               t_Created = ts\<rparr>]\<rparr>)))
          else if HasPrefix name ''managed:builtins'' then
            (case go_index (Split name (CHR '':'')) 2 of
               Inl p \<Rightarrow> Inl p
             | Inr seg \<Rightarrow>
                 Inr (b\<lparr>builtInRoleAssignments := builtInRoleAssignments b @
                        [\<lparr>b_RoleID = ID role, b_OrgID = OrgID role, b_Role = Title unicodeTitle seg,
                          b_Updated = ts, b_Created = ts\<rparr>]\<rparr>))
          else Inr b)"

fun assign_names ::
  "(string \<Rightarrow> string) \<Rightarrow> RolesMap \<Rightarrow> time \<Rightarrow> int \<Rightarrow> string list \<Rightarrow> Buckets \<Rightarrow> error + Buckets" where
  "assign_names unicodeTitle rolesMap ts orgID [] b = Inr b"
| "assign_names unicodeTitle rolesMap ts orgID (name # names) b =
     (case assign_name unicodeTitle rolesMap ts orgID name b of
        Inl err \<Rightarrow> Inl err
      | Inr b' \<Rightarrow> assign_names unicodeTitle rolesMap ts orgID names b')"

fun assign_orgs ::
  "(string \<Rightarrow> string) \<Rightarrow> RolesMap \<Rightarrow> time \<Rightarrow> (int \<times> string list) list \<Rightarrow> Buckets
    \<Rightarrow> error + Buckets" where
  "assign_orgs unicodeTitle rolesMap ts [] b = Inr b"
| "assign_orgs unicodeTitle rolesMap ts ((orgID, roleNames) # rest) b =
     (case assign_names unicodeTitle rolesMap ts orgID roleNames b of
        Inl err \<Rightarrow> Inl err
      | Inr b' \<Rightarrow> assign_orgs unicodeTitle rolesMap ts rest b')"

text \<open>The three callbacks handed to \<^verbatim>\<open>batch\<close>: slice the bucket, insert the slice.\<close>

definition insert_window ::
  "('a list \<Rightarrow> 's \<Rightarrow> error option \<times> 's) \<Rightarrow> 'a list \<Rightarrow> int \<Rightarrow> int \<Rightarrow> 's \<Rightarrow> error option \<times> 's" where
  "insert_window insert_multi rows start end' s =
     (case go_slice rows start end' of
        Inl p \<Rightarrow> (Some p, s)
      | Inr window \<Rightarrow> insert_multi window s)"

definition bulkAssignRoles ::
  "(string \<Rightarrow> string) \<Rightarrow> 's Session \<Rightarrow> RolesMap \<Rightarrow> (int \<times> string list) list \<Rightarrow> 's
    \<Rightarrow> (error option \<times> 's) option" where
  "bulkAssignRoles unicodeTitle sess rolesMap assignments s =
     (if length assignments = 0 then Some (None, s)
      else
        (case Now sess s of
           (ts, s0) \<Rightarrow>
             (case assign_orgs unicodeTitle rolesMap ts assignments no_assignments of
                Inl err \<Rightarrow> Some (Some err, s0)
              | Inr b \<Rightarrow>
                  (case batch (int (length (userRoleAssignments b))) batchSize
                          (insert_window (insert_user_roles sess) (userRoleAssignments b)) s0 of
                     None \<Rightarrow> None
                   | Some (Some err, s1) \<Rightarrow> Some (Some err, s1)
                   | Some (None, s1) \<Rightarrow>
                       (case batch (int (length (teamRoleAssignments b))) batchSize
                               (insert_window (insert_team_roles sess) (teamRoleAssignments b)) s1 of
                          None \<Rightarrow> None
                        | Some (Some err, s2) \<Rightarrow> Some (Some err, s2)
                        | Some (None, s2) \<Rightarrow>
                            batch (int (length (builtInRoleAssignments b))) batchSize
                              (insert_window (insert_builtin_roles sess) (builtInRoleAssignments b))
                              s2)))))"

section \<open>A storage in memory\<close>

text \<open>
  Modelled from the spec: the storage capability of its section 6 (the database behind
  the session is not part of the code). The world holds the four tables, the UIDs the
  generator will hand out, the clock, the faults the storage will raise (one entry for
  each statement to come, \<open>None\<close> for a statement that succeeds) and a journal of the
  statements issued so far.
\<close>

datatype statement =
    SelectRoleByName int string
  | SelectRoleByUID int string
  | InsertRolesReturning "Role list"
  | InsertRoles "Role list"
  | SelectRolesByUID "(int \<times> string) list"
  | InsertUserRoles "UserRole list"
  | InsertTeamRoles "TeamRole list"
  | InsertBuiltinRoles "BuiltinRole list"

record World =
  role_table :: "Role list"
  user_role_table :: "UserRole list"
  team_role_table :: "TeamRole list"
  builtin_role_table :: "BuiltinRole list"
  next_id :: int
  uid_source :: "string list"
  clock :: time
  faults :: "error option list"
  journal :: "statement list"

text \<open>
  Modelled from the spec: issuing a statement writes it to the journal and consumes the
  next fault, which decides whether the statement fails.
\<close>

definition issue :: "statement \<Rightarrow> World \<Rightarrow> error option \<times> World" where
  "issue st w =
     (case faults w of [] \<Rightarrow> None | f # fs \<Rightarrow> f,
      w\<lparr>journal := journal w @ [st], faults := tl (faults w)\<rparr>)"

text \<open>Modelled from the spec: the UID generator hands out the next UID of its source.\<close>

definition mem_GenerateShortUID :: "World \<Rightarrow> string \<times> World" where
  "mem_GenerateShortUID w =
     (case uid_source w of [] \<Rightarrow> (''uid'', w) | u # us \<Rightarrow> (u, w\<lparr>uid_source := us\<rparr>))"

text \<open>Modelled from the spec: the clock is read and moves on.\<close>

definition mem_Now :: "World \<Rightarrow> time \<times> World" where
  "mem_Now w = (clock w, w\<lparr>clock := clock w + 1\<rparr>)"

text \<open>Modelled from the spec: the lookup of a role by organisation and name.\<close>

definition mem_role_by_name :: "int \<Rightarrow> string \<Rightarrow> World \<Rightarrow> (error + Role option) \<times> World" where
  "mem_role_by_name orgID name w =
     (case issue (SelectRoleByName orgID name) w of
        (Some err, w') \<Rightarrow> (Inl err, w')
      | (None, w') \<Rightarrow> (Inr (find (\<lambda>r. OrgID r = orgID \<and> Name r = name) (role_table w')), w'))"

text \<open>Modelled from the spec: the existence check of a UID, scoped to the organisation.\<close>

definition mem_role_uid_exists :: "int \<Rightarrow> string \<Rightarrow> World \<Rightarrow> (error + bool) \<times> World" where
  "mem_role_uid_exists orgID uid w =
     (case issue (SelectRoleByUID orgID uid) w of
        (Some err, w') \<Rightarrow> (Inl err, w')
      | (None, w') \<Rightarrow> (Inr (\<exists>r \<in> set (role_table w'). OrgID r = orgID \<and> UID r = uid), w'))"

text \<open>
  Modelled from the spec: a multi-row insert into the role table gives the rows the next
  identifiers; the table keeps the UID unique within an organisation and refuses rows
  that break this (a duplicate key).
\<close>

fun number_rows :: "int \<Rightarrow> Role list \<Rightarrow> Role list" where
  "number_rows n [] = []"
| "number_rows n (r # rs) = r\<lparr>ID := n\<rparr> # number_rows (n + 1) rs"

definition store_roles :: "Role list \<Rightarrow> World \<Rightarrow> error + World" where
  "store_roles rows w =
     (if distinct (map (\<lambda>r. (OrgID r, UID r)) (role_table w @ rows))
      then Inr (w\<lparr>role_table := role_table w @ number_rows (next_id w) rows,
                 next_id := next_id w + int (length rows)\<rparr>)
      else Inl (StorageError ''duplicate key''))"

text \<open>
  Modelled from the spec: the combined insert-and-return statement; it returns, for each
  row inserted, the three columns the statement names (\<open>id\<close>, \<open>org_id\<close>, \<open>name\<close>), the
  other fields of the returned role being left at their zero value.
\<close>

definition mem_insert_roles_returning :: "Role list \<Rightarrow> World \<Rightarrow> (error + Role list) \<times> World" where
  "mem_insert_roles_returning rows w =
     (case issue (InsertRolesReturning rows) w of
        (Some err, w') \<Rightarrow> (Inl err, w')
      | (None, w') \<Rightarrow>
          (case store_roles rows w' of
             Inl err \<Rightarrow> (Inl err, w')
           | Inr w'' \<Rightarrow>
               (Inr (map (\<lambda>r. zero_Role\<lparr>ID := ID r, OrgID := OrgID r, Name := Name r\<rparr>)
                       (number_rows (next_id w') rows)), w'')))"

text \<open>Modelled from the spec: the plain multi-row insert of the two-step strategy.\<close>

definition mem_insert_roles :: "Role list \<Rightarrow> World \<Rightarrow> error option \<times> World" where
  "mem_insert_roles rows w =
     (case issue (InsertRoles rows) w of
        (Some err, w') \<Rightarrow> (Some err, w')
      | (None, w') \<Rightarrow>
          (case store_roles rows w' of
             Inl err \<Rightarrow> (Some err, w')
           | Inr w'' \<Rightarrow> (None, w'')))"

text \<open>
  Modelled from the spec: the second lookup of the two-step strategy, selecting every
  role that matches one of the \<open>(org_id, uid)\<close> pairs.
\<close>

definition mem_find_roles_by_uid :: "(int \<times> string) list \<Rightarrow> World \<Rightarrow> (error + Role list) \<times> World" where
  "mem_find_roles_by_uid pairs w =
     (case issue (SelectRolesByUID pairs) w of
        (Some err, w') \<Rightarrow> (Inl err, w')
      | (None, w') \<Rightarrow> (Inr (filter (\<lambda>r. (OrgID r, UID r) \<in> set pairs) (role_table w')), w'))"

text \<open>Modelled from the spec: the bulk inserts of the three kinds of binding.\<close>

definition mem_insert_user_roles :: "UserRole list \<Rightarrow> World \<Rightarrow> error option \<times> World" where
  "mem_insert_user_roles rows w =
     (case issue (InsertUserRoles rows) w of
        (Some err, w') \<Rightarrow> (Some err, w')
      | (None, w') \<Rightarrow> (None, w'\<lparr>user_role_table := user_role_table w' @ rows\<rparr>))"

definition mem_insert_team_roles :: "TeamRole list \<Rightarrow> World \<Rightarrow> error option \<times> World" where
  "mem_insert_team_roles rows w =
     (case issue (InsertTeamRoles rows) w of
        (Some err, w') \<Rightarrow> (Some err, w')
      | (None, w') \<Rightarrow> (None, w'\<lparr>team_role_table := team_role_table w' @ rows\<rparr>))"

definition mem_insert_builtin_roles :: "BuiltinRole list \<Rightarrow> World \<Rightarrow> error option \<times> World" where
  "mem_insert_builtin_roles rows w =
     (case issue (InsertBuiltinRoles rows) w of
        (Some err, w') \<Rightarrow> (Some err, w')
      | (None, w') \<Rightarrow> (None, w'\<lparr>builtin_role_table := builtin_role_table w' @ rows\<rparr>))"

text \<open>Modelled from the spec: the session over the storage in memory, for a dialect.\<close>

definition mem :: "string \<Rightarrow> World Session" where
  "mem driver =
     \<lparr>DriverName = driver,
      GenerateShortUID = mem_GenerateShortUID,
      Now = mem_Now,
      role_by_name = mem_role_by_name,
      role_uid_exists = mem_role_uid_exists,
      insert_roles_returning = mem_insert_roles_returning,
      insert_roles = mem_insert_roles,
      find_roles_by_uid = mem_find_roles_by_uid,
      insert_user_roles = mem_insert_user_roles,
      insert_team_roles = mem_insert_team_roles,
      insert_builtin_roles = mem_insert_builtin_roles\<rparr>"

text \<open>An empty storage whose clock shows 100, with no fault to come.\<close>

definition world0 :: World where
  "world0 =
     \<lparr>role_table = [], user_role_table = [], team_role_table = [], builtin_role_table = [],
      next_id = 1, uid_source = [], clock = 100, faults = [], journal = []\<rparr>"

section \<open>Worlds and roles for the examples\<close>

text \<open>The fault the next statement will meet, if any.\<close>

definition next_fault :: "World \<Rightarrow> error option" where
  "next_fault w = (case faults w of [] \<Rightarrow> None | f # fs \<Rightarrow> f)"

text \<open>
  A storage in which organisation 1 already uses the UIDs \<open>a\<close>, \<open>b\<close> and \<open>c\<close>, and a
  generator that will hand out exactly these three before \<open>d\<close>.
\<close>

definition used_uids :: World where
  "used_uids =
     world0\<lparr>role_table :=
              [zero_Role\<lparr>ID := 1, OrgID := 1, UID := ''a''\<rparr>,
               zero_Role\<lparr>ID := 2, OrgID := 1, UID := ''b''\<rparr>,
               zero_Role\<lparr>ID := 3, OrgID := 1, UID := ''c''\<rparr>],
            uid_source := [''a'', ''b'', ''c'', ''d'']\<rparr>"

text \<open>A role as a caller builds it: organisation and name set, every other field zero.\<close>

definition role1 :: Role where
  "role1 = zero_Role\<lparr>OrgID := 1, Name := ''managed:users:1''\<rparr>"

text \<open>
  The examples below use ASCII names only, so the library's part of \<open>Title\<close> is never
  consulted; the identity stands in for it.
\<close>

definition no_unicode :: "string \<Rightarrow> string" where
  "no_unicode s = s"

text \<open>
  The Role Index of a list of roles: for each organisation that has a role, the map from
  a name to the first role of that organisation with that name.
\<close>

definition index_of :: "Role list \<Rightarrow> RolesMap" where
  "index_of roles orgID =
     (if \<exists>r \<in> set roles. OrgID r = orgID
      then Some (\<lambda>name. find (\<lambda>r. OrgID r = orgID \<and> Name r = name) roles)
      else None)"

text \<open>Persisted roles for the examples.\<close>

definition role_x :: Role where
  "role_x = zero_Role\<lparr>ID := 7, OrgID := 1, Name := ''managed:users:x''\<rparr>"

definition role_42 :: Role where
  "role_42 = zero_Role\<lparr>ID := 11, OrgID := 1, Name := ''managed:users:42''\<rparr>"

definition role_t7 :: Role where
  "role_t7 = zero_Role\<lparr>ID := 12, OrgID := 1, Name := ''managed:teams:7''\<rparr>"

definition role_editor :: Role where
  "role_editor = zero_Role\<lparr>ID := 13, OrgID := 1, Name := ''managed:builtins:editor:extra''\<rparr>"

definition role_usersX :: Role where
  "role_usersX = zero_Role\<lparr>ID := 14, OrgID := 1, Name := ''managed:usersX:5''\<rparr>"

definition role_custom :: Role where
  "role_custom = zero_Role\<lparr>ID := 15, OrgID := 1, Name := ''custom:role''\<rparr>"

definition role_short :: Role where
  "role_short = zero_Role\<lparr>ID := 16, OrgID := 1, Name := ''managed:users''\<rparr>"

text \<open>
  The identifiers of the stored roles come from the counter of the storage in memory,
  which is positive: no stored role has the identifier 0.
\<close>

definition ids_issued :: "World \<Rightarrow> bool" where
  "ids_issued w = (0 < next_id w \<and> (\<forall>r \<in> set (role_table w). 0 < ID r))"



text \<open>A persisted role whose name goes on after \<open>managed:teams\<close> without a colon.\<close>

definition role_teamsX :: Role where
  "role_teamsX = zero_Role\<lparr>ID := 17, OrgID := 1, Name := ''managed:teamsX:9''\<rparr>"

section \<open>The statements of a bulk write\<close>

text \<open>
  What the specification says of the Assignment Bulk Writer, in its words: each bucket is
  cut into windows of at most \<open>batchSize\<close> rows; the statements are the inserts of the
  user windows, then of the team windows, then of the built-in windows; they are issued
  one at a time, in this order, until one fails.
\<close>

definition chunks :: "'a list \<Rightarrow> 'a list list" where
  "chunks rows =
     map (\<lambda>(a, b). take (nat (b - a)) (drop (nat a) rows))
       (windows_from 0 (int (length rows)) batchSize)"

fun run_statements :: "statement list \<Rightarrow> error option list \<Rightarrow> statement list \<times> error option" where
  "run_statements [] fs = ([], None)"
| "run_statements (st # sts) fs =
     (case (case fs of [] \<Rightarrow> None | f # _ \<Rightarrow> f) of
        Some err \<Rightarrow> ([st], Some err)
      | None \<Rightarrow> (case run_statements sts (tl fs) of (issued, r) \<Rightarrow> (st # issued, r)))"

definition bucket_statements :: "Buckets \<Rightarrow> statement list" where
  "bucket_statements b =
     map InsertUserRoles (chunks (userRoleAssignments b))
     @ map InsertTeamRoles (chunks (teamRoleAssignments b))
     @ map InsertBuiltinRoles (chunks (builtInRoleAssignments b))"

text \<open>
  A storage whose first statement succeeds and whose second fails, and assignments of
  one name of each kind.
\<close>

definition flaky :: World where
  "flaky = world0\<lparr>faults := [None, Some (StorageError ''connection lost'')]\<rparr>"

definition three_names :: "(int \<times> string list) list" where
  "three_names =
     [(1, [''managed:users:42'', ''managed:teams:7'', ''managed:builtins:editor:extra''])]"

section \<open>Invariants of role creation\<close>

text \<open>Every UID the generator has in store is non-empty.\<close>

definition uids_usable :: "World \<Rightarrow> bool" where
  "uids_usable w = (\<forall>u \<in> set (uid_source w). u \<noteq> [])"

text \<open>
  What the combining statement returns of a stored row: the columns \<open>id\<close>, \<open>org_id\<close> and
  \<open>name\<close>, every other field of the role being left at its zero value.
\<close>

definition returned_columns :: "Role \<Rightarrow> Role" where
  "returned_columns r = zero_Role\<lparr>ID := ID r, OrgID := OrgID r, Name := Name r\<rparr>"

text \<open>
  What holds of the roles collected so far and the storage between two batches, the
  role table having been \<open>table0\<close> before the first batch: the rows stored since then
  are at the end of the table and have non-empty UIDs, the role table keeps
  \<open>(org_id, uid)\<close> unique and the generator is usable; under the two-step strategy the
  roles collected are the rows stored, under the combining strategy they are the
  returned columns of the rows stored.
\<close>

definition created_ok :: "string \<Rightarrow> Role list \<Rightarrow> Role list \<Rightarrow> World \<Rightarrow> bool" where
  "created_ok driver table0 acc w =
     (\<exists>news. role_table w = table0 @ news
        \<and> acc = (if driver = MySQL then news else map returned_columns news)
        \<and> (\<forall>r \<in> set news. UID r \<noteq> [])
        \<and> distinct (map (\<lambda>r. (OrgID r, UID r)) (role_table w))
        \<and> uids_usable w)"

text \<open>A second role to create, and a storage whose generator holds two fresh UIDs.\<close>

definition role2 :: Role where
  "role2 = zero_Role\<lparr>OrgID := 1, Name := ''managed:teams:2''\<rparr>"

definition fresh_uids :: World where
  "fresh_uids = world0\<lparr>uid_source := [''a'', ''b'']\<rparr>"

section \<open>Properties of batch\<close>

declare windows_from.simps [simp del]

lemma go_add_exact:
  "minInt \<le> a + b \<Longrightarrow> a + b \<le> maxInt \<Longrightarrow> go_add a b = a + b"
  unfolding go_add_def minInt_def maxInt_def
  by (rule signed_take_bit_int_eq_self) simp_all

lemma batch_loop_windows:
  assumes "0 \<le> i" "1 \<le> bsize" "count + bsize \<le> maxInt"
  shows "batch_loop i count bsize eachFn s
           = Some (run_windows eachFn (windows_from i count bsize) s)"
  using assms
proof (induction "nat (count - i)" arbitrary: i s rule: less_induct)
  case less
  show ?case
  proof (cases "i < count")
    case False
    then show ?thesis
      by (subst batch_loop.simps, subst windows_from.simps) simp
  next
    case True
    have ex: "go_add i bsize = i + bsize"
      using True less.prems by (intro go_add_exact) (simp_all add: minInt_def)
    define e where "e = min (i + bsize) count"
    have e1: "(if count < i + bsize then count else i + bsize) = e"
      by (simp add: e_def min_def)
    have lt: "nat (count - e) < nat (count - i)" and e0: "0 \<le> e"
      using True less.prems by (simp_all add: e_def min_def)
    have w: "windows_from i count bsize = (i, e) # windows_from e count bsize"
      using True less.prems by (subst windows_from.simps) (simp add: e_def)
    have IH: "\<And>s'. batch_loop e count bsize eachFn s'
                = Some (run_windows eachFn (windows_from e count bsize) s')"
      using less.hyps [OF lt e0 less.prems(2) less.prems(3)] .
    have step: "batch_loop i count bsize eachFn s
        = (case eachFn i e s of
             (Some err, s') \<Rightarrow> Some (Some err, s')
           | (None, s') \<Rightarrow> batch_loop e count bsize eachFn s')"
      by (subst batch_loop.simps) (simp only: True if_True Let_def ex e1)
    show ?thesis
      unfolding step w by (simp add: IH split: prod.split option.split)
  qed
qed

lemma windows_from_cover:
  "0 < bsize \<Longrightarrow> i \<le> count
     \<Longrightarrow> concat (map (\<lambda>(a, b). [a..b - 1]) (windows_from i count bsize)) = [i..count - 1]"
proof (induction i count bsize rule: windows_from.induct)
  case (1 i count bsize)
  show ?case
  proof (cases "i < count")
    case False
    with 1 show ?thesis by (subst windows_from.simps) simp
  next
    case True
    define e where "e = min (i + bsize) count"
    have ie: "i < e" "e \<le> count" using True 1 by (simp_all add: e_def)
    have "concat (map (\<lambda>(a, b). [a..b - 1]) (windows_from e count bsize)) = [e..count - 1]"
      using 1 True ie unfolding e_def by simp
    moreover have "[i..count - 1] = [i..e - 1] @ [e..count - 1]"
      using ie upto_split2 [of i "e - 1" "count - 1"] by simp
    ultimately show ?thesis
      using True 1 by (subst windows_from.simps) (simp add: e_def)
  qed
qed

lemma windows_from_bounds:
  "(a, b) \<in> set (windows_from i count bsize)
     \<Longrightarrow> i \<le> a \<and> a < b \<and> b \<le> count \<and> b - a \<le> bsize"
proof (induction i count bsize rule: windows_from.induct)
  case (1 i count bsize)
  show ?case
  proof (cases "i < count \<and> 0 < bsize")
    case False
    with 1 show ?thesis by (subst (asm) windows_from.simps) simp
  next
    case True
    from "1.prems" True
    consider "(a, b) = (i, min (i + bsize) count)"
      | "(a, b) \<in> set (windows_from (min (i + bsize) count) count bsize)"
      by (subst (asm) windows_from.simps) auto
    then show ?thesis
    proof cases
      case 1
      with True show ?thesis by auto
    next
      case 2
      with "1.IH" True show ?thesis by force
    qed
  qed
qed

lemma windows_from_adjacent:
  "Suc k < length (windows_from i count bsize)
     \<Longrightarrow> snd (windows_from i count bsize ! k) = fst (windows_from i count bsize ! Suc k)"
proof (induction i count bsize arbitrary: k rule: windows_from.induct)
  case (1 i count bsize)
  show ?case
  proof (cases "i < count \<and> 0 < bsize")
    case False
    with "1.prems" show ?thesis by (subst (asm) windows_from.simps) simp
  next
    case True
    define e where "e = min (i + bsize) count"
    have w: "windows_from i count bsize = (i, e) # windows_from e count bsize"
      using True by (subst windows_from.simps) (simp add: e_def)
    show ?thesis
    proof (cases k)
      case 0
      with "1.prems" w have ne: "e < count \<and> 0 < bsize"
        by (subst (asm) (2) windows_from.simps) (auto split: if_splits)
      then have "fst (windows_from e count bsize ! 0) = e"
        by (subst windows_from.simps) simp
      with 0 w show ?thesis by simp
    next
      case (Suc j)
      with "1.prems" w have "Suc j < length (windows_from e count bsize)" by simp
      with "1.IH" True have
        "snd (windows_from e count bsize ! j) = fst (windows_from e count bsize ! Suc j)"
        unfolding e_def by simp
      with Suc w show ?thesis by simp
    qed
  qed
qed

lemma batch_run:
  "0 \<le> count \<Longrightarrow> 1 \<le> bsize \<Longrightarrow> count + bsize \<le> maxInt
     \<Longrightarrow> batch count bsize eachFn s = Some (run_windows eachFn (windows_from 0 count bsize) s)"
  unfolding batch_def by (rule batch_loop_windows) simp_all

lemma batch_zero: "batch 0 bsize eachFn s = Some (None, s)"
  unfolding batch_def by (subst batch_loop.simps) simp

section \<open>The windows of batch\<close>

text \<open>
  C1 (as amended). For every \<open>count \<ge> 0\<close> and \<open>bsize \<ge> 1\<close> whose sum does not
  exceed the largest \<^verbatim>\<open>int\<close>, \<^verbatim>\<open>batch\<close> returns, and its run is the run of the
  callback over the windows \<open>windows_from 0 count bsize\<close> in order, stopping at the
  first error: the windows' index ranges, concatenated, are exactly \<open>0, ..., count - 1\<close>
  (every index once, ascending); each window is non-empty, lies in \<open>[0, count]\<close> and is
  at most \<open>bsize\<close> wide; each window starts where the one before ended; with
  \<open>count = 0\<close> nothing is invoked and the result is success; and when the callback
  fails on a window after succeeding on all earlier ones, \<^verbatim>\<open>batch\<close> returns that error
  with the state the failing call left, no later window being invoked.
\<close>

theorem batch_windows:
  assumes "0 \<le> count" and "1 \<le> bsize" and "count + bsize \<le> maxInt"
  shows "batch count bsize eachFn s
           = Some (run_windows eachFn (windows_from 0 count bsize) s)
       \<and> concat (map (\<lambda>(a, b). [a..b - 1]) (windows_from 0 count bsize)) = [0..count - 1]
       \<and> (\<forall>(a, b) \<in> set (windows_from 0 count bsize).
             0 \<le> a \<and> a < b \<and> b \<le> count \<and> b - a \<le> bsize)
       \<and> (\<forall>k. Suc k < length (windows_from 0 count bsize) \<longrightarrow>
             snd (windows_from 0 count bsize ! k) = fst (windows_from 0 count bsize ! Suc k))
       \<and> (count = 0 \<longrightarrow> batch count bsize eachFn s = Some (None, s))
       \<and> (\<forall>ws1 a b ws2 s1 err s2.
             windows_from 0 count bsize = ws1 @ (a, b) # ws2
             \<and> run_windows eachFn ws1 s = (None, s1) \<and> eachFn a b s1 = (Some err, s2)
             \<longrightarrow> batch count bsize eachFn s = Some (Some err, s2))"
proof -
  have run: "batch count bsize eachFn s
               = Some (run_windows eachFn (windows_from 0 count bsize) s)"
    unfolding batch_def using assms by (intro batch_loop_windows) simp_all
  have cover: "concat (map (\<lambda>(a, b). [a..b - 1]) (windows_from 0 count bsize)) = [0..count - 1]"
    using assms by (intro windows_from_cover) simp_all
  have bounds: "\<forall>(a, b) \<in> set (windows_from 0 count bsize).
                  0 \<le> a \<and> a < b \<and> b \<le> count \<and> b - a \<le> bsize"
    using windows_from_bounds [of _ _ 0 count bsize] by blast
  have adjacent: "\<forall>k. Suc k < length (windows_from 0 count bsize) \<longrightarrow>
             snd (windows_from 0 count bsize ! k) = fst (windows_from 0 count bsize ! Suc k)"
    using windows_from_adjacent by blast
  have zero: "count = 0 \<longrightarrow> batch count bsize eachFn s = Some (None, s)"
    unfolding run by (subst windows_from.simps) simp
  have app: "\<And>ws1 ws s1. run_windows eachFn ws1 s = (None, s1)
               \<Longrightarrow> run_windows eachFn (ws1 @ ws) s = run_windows eachFn ws s1"
  proof -
    fix ws1 ws s1
    show "run_windows eachFn ws1 s = (None, s1)
            \<Longrightarrow> run_windows eachFn (ws1 @ ws) s = run_windows eachFn ws s1"
      by (induction eachFn ws1 s rule: run_windows.induct)
         (auto split: prod.splits option.splits)
  qed
  have stop: "\<forall>ws1 a b ws2 s1 err s2.
             windows_from 0 count bsize = ws1 @ (a, b) # ws2
             \<and> run_windows eachFn ws1 s = (None, s1) \<and> eachFn a b s1 = (Some err, s2)
             \<longrightarrow> batch count bsize eachFn s = Some (Some err, s2)"
    unfolding run by (auto simp: app)
  from run cover bounds adjacent zero stop show ?thesis by blast
qed

theorem batch_windows_witness:
  "batch 5 2 record_window [] = Some (None, [(0, 2), (2, 4), (4, 5)])
   \<and> windows_from 0 5 2 = [(0, 2), (2, 4), (4, 5)]"
proof -
  have w: "windows_from 0 5 2 = [(0, 2), (2, 4), (4, 5)]"
    by (simp add: windows_from.simps)
  have "(0::int) \<le> 5" "(1::int) \<le> 2" "(5::int) + 2 \<le> maxInt"
    by (simp_all add: maxInt_def)
  from batch_windows [OF this, of record_window "[]"] show ?thesis
    by (simp add: w record_window_def)
qed

text \<open>
  C1 as stated fails where \<^verbatim>\<open>i + batchSize\<close> overflows: with \<open>count = maxInt\<close> and
  \<open>bsize = maxInt - 1\<close> the second window handed to the callback is
  \<open>(maxInt - 1, -4)\<close>, which ends before it starts and lies outside \<open>[0, count)\<close>.
\<close>

theorem batch_overflow_counterexample:
  "batch 9223372036854775807 9223372036854775806 checked_window []
     = Some (Some (PanicSliceBounds 9223372036854775806 (- 4) 0),
             [(0, 9223372036854775806), (9223372036854775806, - 4)])"
proof -
  have a1: "go_add 0 9223372036854775806 = 9223372036854775806"
    using go_add_exact [of 0 9223372036854775806] by (simp add: minInt_def maxInt_def)
  have a2: "go_add 9223372036854775806 9223372036854775806 = - 4"
    unfolding go_add_def by simp
  show ?thesis
    unfolding batch_def
    by (subst batch_loop.simps, subst batch_loop.simps)
       (simp add: a1 a2 checked_window_def)
qed

section \<open>generateNewRoleUID\<close>

lemmas mem_simps = mem_def mem_GenerateShortUID_def mem_Now_def mem_role_by_name_def
  mem_role_uid_exists_def mem_insert_roles_returning_def mem_insert_roles_def
  mem_find_roles_by_uid_def mem_insert_user_roles_def mem_insert_team_roles_def
  mem_insert_builtin_roles_def issue_def store_roles_def

text \<open>
  C5 (as amended). \<^verbatim>\<open>generateNewRoleUID\<close> makes at most three attempts, each one call
  of the generator followed by one existence check for \<open>(orgID, uid)\<close>. It returns the
  first candidate whose check reports unused, at once after one check when the first
  candidate is free; an error of a check is returned as it is, with no further attempt;
  and when all three candidates are reported in use it fails, in the state the third
  check left (there is no fourth attempt), with the error that \<^verbatim>\<open>fmt.Errorf\<close> makes of
  the text \<open>failed to generate uid\<close>: an ordinary error value, not a kind of its own.
\<close>

theorem generateNewRoleUID_attempts:
  fixes sess :: "'s Session"
  assumes "GenerateShortUID sess s = (uid1, s1)"
  shows "(role_uid_exists sess orgID uid1 s1 = (Inr False, s2)
            \<longrightarrow> generateNewRoleUID sess orgID s = (Inr uid1, s2))
       \<and> (role_uid_exists sess orgID uid1 s1 = (Inl err, s2)
            \<longrightarrow> generateNewRoleUID sess orgID s = (Inl err, s2))
       \<and> (role_uid_exists sess orgID uid1 s1 = (Inr True, s2)
            \<and> GenerateShortUID sess s2 = (uid2, s3)
            \<longrightarrow>
              (role_uid_exists sess orgID uid2 s3 = (Inr False, s4)
                 \<longrightarrow> generateNewRoleUID sess orgID s = (Inr uid2, s4))
            \<and> (role_uid_exists sess orgID uid2 s3 = (Inl err, s4)
                 \<longrightarrow> generateNewRoleUID sess orgID s = (Inl err, s4))
            \<and> (role_uid_exists sess orgID uid2 s3 = (Inr True, s4)
                 \<and> GenerateShortUID sess s4 = (uid3, s5)
                 \<longrightarrow>
                   (role_uid_exists sess orgID uid3 s5 = (Inr False, s6)
                      \<longrightarrow> generateNewRoleUID sess orgID s = (Inr uid3, s6))
                 \<and> (role_uid_exists sess orgID uid3 s5 = (Inl err, s6)
                      \<longrightarrow> generateNewRoleUID sess orgID s = (Inl err, s6))
                 \<and> (role_uid_exists sess orgID uid3 s5 = (Inr True, s6)
                      \<longrightarrow> generateNewRoleUID sess orgID s
                            = (Inl (Errorf ''failed to generate uid''), s6))))"
  using assms by (simp add: generateNewRoleUID_def numeral_3_eq_3)

text \<open>
  The witness runs the generator against \<open>used_uids\<close>: three candidates, three checks,
  all in use, and the fourth candidate \<open>d\<close> is never drawn.
\<close>

theorem generateNewRoleUID_attempts_witness:
  "generateNewRoleUID (mem ''sqlite3'') 1 used_uids
     = (Inl (Errorf ''failed to generate uid''),
        used_uids\<lparr>uid_source := [''d''],
                  journal := [SelectRoleByUID 1 ''a'', SelectRoleByUID 1 ''b'',
                              SelectRoleByUID 1 ''c'']\<rparr>)"
  using generateNewRoleUID_attempts
    [where sess = "mem ''sqlite3''" and s = used_uids and orgID = 1
       and ?uid1.0 = "''a''" and ?s1.0 = "used_uids\<lparr>uid_source := [''b'', ''c'', ''d'']\<rparr>"
       and ?s2.0 = "used_uids\<lparr>uid_source := [''b'', ''c'', ''d''],
                              journal := [SelectRoleByUID 1 ''a'']\<rparr>"
       and ?uid2.0 = "''b''"
       and ?s3.0 = "used_uids\<lparr>uid_source := [''c'', ''d''],
                              journal := [SelectRoleByUID 1 ''a'']\<rparr>"
       and ?s4.0 = "used_uids\<lparr>uid_source := [''c'', ''d''],
                              journal := [SelectRoleByUID 1 ''a'', SelectRoleByUID 1 ''b'']\<rparr>"
       and ?uid3.0 = "''c''"
       and ?s5.0 = "used_uids\<lparr>uid_source := [''d''],
                              journal := [SelectRoleByUID 1 ''a'', SelectRoleByUID 1 ''b'']\<rparr>"
       and ?s6.0 = "used_uids\<lparr>uid_source := [''d''],
                              journal := [SelectRoleByUID 1 ''a'', SelectRoleByUID 1 ''b'',
                                          SelectRoleByUID 1 ''c'']\<rparr>"]
  by (simp add: mem_simps used_uids_def world0_def zero_Role_def)

text \<open>
  C5 as stated fails in its claim of a distinct error condition: the caller receives
  the same error value when the first existence check fails with an error of the text
  \<open>failed to generate uid\<close> as when all three candidates are in use.
\<close>

theorem generateNewRoleUID_error_counterexample:
  "fst (generateNewRoleUID (mem ''sqlite3'') 1
          (world0\<lparr>faults := [Some (Errorf ''failed to generate uid'')]\<rparr>))
     = fst (generateNewRoleUID (mem ''sqlite3'') 1 used_uids)"
  by (simp add: generateNewRoleUID_def numeral_3_eq_3 mem_simps used_uids_def world0_def
        zero_Role_def)

section \<open>findRole\<close>



lemma number_rows_ids: "r \<in> set (number_rows n rows) \<Longrightarrow> 0 < n \<Longrightarrow> 0 < ID r"
proof (induction rows arbitrary: n)
  case Nil
  then show ?case by simp
next
  case (Cons a rows)
  from Cons.prems(1) consider "r = a\<lparr>ID := n\<rparr>" | "r \<in> set (number_rows (n + 1) rows)"
    by auto
  then show ?case
  proof cases
    case 1
    with Cons.prems(2) show ?thesis by simp
  next
    case 2
    from Cons.prems(2) have "0 < n + 1" by simp
    from Cons.IH [OF 2 this] show ?thesis .
  qed
qed

lemma store_roles_ids_issued:
  assumes "store_roles rows w = Inr w'" and "ids_issued w"
  shows "ids_issued w'"
proof -
  from assms(1) have w': "w' = w\<lparr>role_table := role_table w @ number_rows (next_id w) rows,
                                  next_id := next_id w + int (length rows)\<rparr>"
    by (simp add: store_roles_def split: if_splits)
  from assms(2) have n: "0 < next_id w" and old: "\<forall>r \<in> set (role_table w). 0 < ID r"
    by (simp_all add: ids_issued_def)
  from n have "\<forall>r \<in> set (number_rows (next_id w) rows). 0 < ID r"
    using number_rows_ids by blast
  with n old show ?thesis unfolding w' ids_issued_def by auto
qed

lemma issue_ids_issued: "issue st w = (e, w1) \<Longrightarrow> ids_issued w1 = ids_issued w"
  by (auto simp: issue_def ids_issued_def)

text \<open>Every operation of the storage in memory keeps the identifiers positive.\<close>

lemma mem_keeps_ids_issued:
  assumes "ids_issued w"
  shows "ids_issued (snd (mem_GenerateShortUID w))"
    and "ids_issued (snd (mem_Now w))"
    and "ids_issued (snd (mem_role_by_name orgID name w))"
    and "ids_issued (snd (mem_role_uid_exists orgID uid w))"
    and "ids_issued (snd (mem_insert_roles_returning roles w))"
    and "ids_issued (snd (mem_insert_roles roles w))"
    and "ids_issued (snd (mem_find_roles_by_uid pairs w))"
    and "ids_issued (snd (mem_insert_user_roles urs w))"
    and "ids_issued (snd (mem_insert_team_roles trs w))"
    and "ids_issued (snd (mem_insert_builtin_roles brs w))"
proof -
  have i: "ids_issued w1" if "issue st w = (e, w1)" for st e w1
    using issue_ids_issued [OF that] assms by simp
  show "ids_issued (snd (mem_GenerateShortUID w))"
    using assms by (simp add: mem_GenerateShortUID_def ids_issued_def split: list.split)
  show "ids_issued (snd (mem_Now w))"
    using assms by (simp add: mem_Now_def ids_issued_def)
  show "ids_issued (snd (mem_role_by_name orgID name w))"
  proof (cases "issue (SelectRoleByName orgID name) w")
    case (Pair e w1)
    with i [OF Pair] show ?thesis
      by (cases e) (simp_all add: mem_role_by_name_def)
  qed
  show "ids_issued (snd (mem_role_uid_exists orgID uid w))"
  proof (cases "issue (SelectRoleByUID orgID uid) w")
    case (Pair e w1)
    with i [OF Pair] show ?thesis
      by (cases e) (simp_all add: mem_role_uid_exists_def)
  qed
  show "ids_issued (snd (mem_insert_roles_returning roles w))"
  proof (cases "issue (InsertRolesReturning roles) w")
    case (Pair e w1)
    show ?thesis
    proof (cases "store_roles roles w1")
      case (Inl err)
      with Pair i [OF Pair] show ?thesis
        by (cases e) (simp_all add: mem_insert_roles_returning_def)
    next
      case (Inr w2)
      with Pair i [OF Pair] store_roles_ids_issued [OF Inr] show ?thesis
        by (cases e) (simp_all add: mem_insert_roles_returning_def)
    qed
  qed
  show "ids_issued (snd (mem_insert_roles roles w))"
  proof (cases "issue (InsertRoles roles) w")
    case (Pair e w1)
    show ?thesis
    proof (cases "store_roles roles w1")
      case (Inl err)
      with Pair i [OF Pair] show ?thesis
        by (cases e) (simp_all add: mem_insert_roles_def)
    next
      case (Inr w2)
      with Pair i [OF Pair] store_roles_ids_issued [OF Inr] show ?thesis
        by (cases e) (simp_all add: mem_insert_roles_def)
    qed
  qed
  show "ids_issued (snd (mem_find_roles_by_uid pairs w))"
  proof (cases "issue (SelectRolesByUID pairs) w")
    case (Pair e w1)
    with i [OF Pair] show ?thesis
      by (cases e) (simp_all add: mem_find_roles_by_uid_def)
  qed
  show "ids_issued (snd (mem_insert_user_roles urs w))"
  proof (cases "issue (InsertUserRoles urs) w")
    case (Pair e w1)
    with i [OF Pair] show ?thesis
      by (cases e) (simp_all add: mem_insert_user_roles_def ids_issued_def)
  qed
  show "ids_issued (snd (mem_insert_team_roles trs w))"
  proof (cases "issue (InsertTeamRoles trs) w")
    case (Pair e w1)
    with i [OF Pair] show ?thesis
      by (cases e) (simp_all add: mem_insert_team_roles_def ids_issued_def)
  qed
  show "ids_issued (snd (mem_insert_builtin_roles brs w))"
  proof (cases "issue (InsertBuiltinRoles brs) w")
    case (Pair e w1)
    with i [OF Pair] show ?thesis
      by (cases e) (simp_all add: mem_insert_builtin_roles_def ids_issued_def)
  qed
qed




section \<open>The version and the timestamps of created roles\<close>

text \<open>
  C6, at the input on which the code departs from it. A role with version 0 (the zero
  value a caller leaves) is created once with each strategy, the clock showing 100. The
  two-step strategy inserts and stores it with version 0 and the timestamps 100; the
  combining strategy stores it with version 1.
\<close>

theorem createRolesMySQL_version:
  "journal (snd (createRolesMySQL (mem MySQL) [role1] 0 1 (world0\<lparr>uid_source := [''a'']\<rparr>)))
     = [SelectRoleByUID 1 ''a'',
        InsertRoles [\<lparr>ID = 0, OrgID = 1, Version = 0, UID = ''a'', Name = ''managed:users:1'',
                      Updated = 100, Created = 100\<rparr>],
        SelectRolesByUID [(1, ''a'')]]
   \<and> map Version (role_table (snd (createRolesMySQL (mem MySQL) [role1] 0 1
                                      (world0\<lparr>uid_source := [''a'']\<rparr>)))) = [0]
   \<and> map Version (role_table (snd (createRoles (mem ''postgres'') [role1] 0 1
                                      (world0\<lparr>uid_source := [''a'']\<rparr>)))) = [1]"
  by (simp add: createRolesMySQL_def createRoles_def generateNewRoleUID_def numeral_3_eq_3
        mem_simps world0_def zero_Role_def role1_def MySQL_def)

section \<open>Populating the buckets\<close>

lemma assign_names_append:
  "assign_names ut rm ts orgID (xs @ ys) b
     = (case assign_names ut rm ts orgID xs b of
          Inl err \<Rightarrow> Inl err
        | Inr b' \<Rightarrow> assign_names ut rm ts orgID ys b')"
  by (induction xs arbitrary: b) (auto split: sum.splits)

lemma assign_orgs_append:
  "assign_orgs ut rm ts (xs @ ys) b
     = (case assign_orgs ut rm ts xs b of
          Inl err \<Rightarrow> Inl err
        | Inr b' \<Rightarrow> assign_orgs ut rm ts ys b')"
  by (induction xs arbitrary: b) (auto split: sum.splits)

lemma assign_orgs_split:
  "assign_orgs ut rm ts (pre @ (orgID, ns1 @ name # ns2) # post) b
     = (case assign_orgs ut rm ts (pre @ [(orgID, ns1)]) b of
          Inl err \<Rightarrow> Inl err
        | Inr b0 \<Rightarrow>
            (case assign_name ut rm ts orgID name b0 of
               Inl err \<Rightarrow> Inl err
             | Inr b1 \<Rightarrow> assign_orgs ut rm ts ((orgID, ns2) # post) b1))"
  by (simp add: assign_orgs_append assign_names_append split: sum.splits)

lemma bulkAssignRoles_populate_error:
  "assignments \<noteq> [] \<Longrightarrow> assign_orgs ut rm (fst (Now sess s)) assignments no_assignments = Inl err
     \<Longrightarrow> bulkAssignRoles ut sess rm assignments s = Some (Some err, snd (Now sess s))"
  by (cases "Now sess s") (simp add: bulkAssignRoles_def)

lemma assign_names_unknown:
  "name \<in> set names \<Longrightarrow> lookup_role rm orgID name = None
     \<Longrightarrow> \<exists>err. assign_names ut rm ts orgID names b = Inl err"
  by (induction names arbitrary: b) (auto simp: assign_name_def split: sum.splits)

lemma assign_orgs_unknown:
  "(orgID, names) \<in> set assignments \<Longrightarrow> name \<in> set names \<Longrightarrow> lookup_role rm orgID name = None
     \<Longrightarrow> \<exists>err. assign_orgs ut rm ts assignments b = Inl err"
proof (induction assignments arbitrary: b)
  case Nil
  then show ?case by simp
next
  case (Cons a assignments)
  obtain o1 ns where a: "a = (o1, ns)" by (cases a)
  show ?case
  proof (cases "assign_names ut rm ts o1 ns b")
    case (Inl e)
    with a show ?thesis by simp
  next
    case (Inr b')
    have "a \<noteq> (orgID, names)"
    proof
      assume "a = (orgID, names)"
      with a Inr assign_names_unknown [OF Cons.prems(2,3), of ut ts b] show False by simp
    qed
    with Cons.prems have "(orgID, names) \<in> set assignments" by simp
    from Cons.IH [OF this Cons.prems(2,3)] a Inr show ?thesis by simp
  qed
qed

text \<open>
  C4 (as amended). When some organisation's assignment set contains a name with no
  entry in the Role Index, \<^verbatim>\<open>bulkAssignRoles\<close> fails while it populates the buckets:
  it returns an error in the state in which the clock has been read and nothing else
  has happened, so no insert is issued. The error is the unknown-role error carrying
  that name whenever every name visited before it was processed without error; a name
  visited earlier that fails on its own account (a malformed identifier, a missing
  segment) is reported instead.
\<close>

theorem bulkAssignRoles_unknown_role:
  assumes "(orgID, roleNames) \<in> set assignments" and "name \<in> set roleNames"
    and "lookup_role rolesMap orgID name = None"
  shows "(\<exists>err. bulkAssignRoles ut sess rolesMap assignments s = Some (Some err, snd (Now sess s)))
       \<and> (\<forall>pre ns1 ns2 post b0.
             assignments = pre @ (orgID, ns1 @ name # ns2) # post
             \<and> assign_orgs ut rolesMap (fst (Now sess s)) (pre @ [(orgID, ns1)]) no_assignments = Inr b0
             \<longrightarrow> bulkAssignRoles ut sess rolesMap assignments s
                   = Some (Some (ErrUnknownRole name), snd (Now sess s)))"
proof -
  from assms(1) have ne: "assignments \<noteq> []" by auto
  obtain err where e: "assign_orgs ut rolesMap (fst (Now sess s)) assignments no_assignments = Inl err"
    using assign_orgs_unknown [OF assms] by blast
  have 1: "\<exists>err. bulkAssignRoles ut sess rolesMap assignments s = Some (Some err, snd (Now sess s))"
    using bulkAssignRoles_populate_error [OF ne e] by (rule exI)
  have 2: "bulkAssignRoles ut sess rolesMap assignments s
             = Some (Some (ErrUnknownRole name), snd (Now sess s))"
    if eq: "assignments = pre @ (orgID, ns1 @ name # ns2) # post"
      and ok: "assign_orgs ut rolesMap (fst (Now sess s)) (pre @ [(orgID, ns1)]) no_assignments = Inr b0"
    for pre ns1 ns2 post b0
  proof -
    have "assign_name ut rolesMap (fst (Now sess s)) orgID name b0 = Inl (ErrUnknownRole name)"
      using assms(3) by (simp add: assign_name_def)
    then have "assign_orgs ut rolesMap (fst (Now sess s)) (pre @ (orgID, ns1 @ name # ns2) # post)
                 no_assignments = Inl (ErrUnknownRole name)"
      by (simp only: assign_orgs_split ok sum.case)
    then show ?thesis
      unfolding eq by (intro bulkAssignRoles_populate_error) simp_all
  qed
  from 1 2 show ?thesis by blast
qed

text \<open>
  The witness: organisation 1 asks for \<open>ghost\<close>, which the index does not hold. The
  storage in memory is left with an empty journal and empty tables.
\<close>

theorem bulkAssignRoles_unknown_role_witness:
  "bulkAssignRoles no_unicode (mem ''sqlite3'') (index_of [role_x]) [(1, [''ghost''])] world0
      = Some (Some (ErrUnknownRole ''ghost''), world0\<lparr>clock := 101\<rparr>)"
proof -
  have l: "lookup_role (index_of [role_x]) 1 ''ghost'' = None"
    by (simp add: lookup_role_def index_of_def role_x_def zero_Role_def)
  have m: "(1, [''ghost'']) \<in> set [(1::int, [''ghost''])]" "''ghost'' \<in> set [''ghost'']"
    by simp_all
  have n: "snd (Now (mem ''sqlite3'') world0) = world0\<lparr>clock := 101\<rparr>"
    by (simp add: mem_def mem_Now_def world0_def)
  from bulkAssignRoles_unknown_role [OF m l, of no_unicode "mem ''sqlite3''" world0,
         THEN conjunct2, rule_format, of "[]" "[]" "[]" "[]" no_assignments]
  show ?thesis by (simp add: n)
qed

lemma assign_name_users_x:
  "assign_name ut (index_of [role_x]) ts 1 ''managed:users:x'' b = Inl (ErrSyntax ''x'')"
  by code_simp

text \<open>
  C4 as stated fails when a name visited earlier fails first: the set
  \<open>{managed:users:x, ghost}\<close> of organisation 1, visited in this order, with only
  \<open>managed:users:x\<close> in the index, yields the parse error of \<open>x\<close>, not the unknown-role
  error of \<open>ghost\<close>.
\<close>

theorem bulkAssignRoles_first_error_counterexample:
  "lookup_role (index_of [role_x]) 1 ''ghost'' = None
   \<and> bulkAssignRoles no_unicode (mem ''sqlite3'') (index_of [role_x])
         [(1, [''managed:users:x'', ''ghost''])] world0
      = Some (Some (ErrSyntax ''x''), world0\<lparr>clock := 101\<rparr>)"
proof -
  have "assign_orgs no_unicode (index_of [role_x]) (fst (Now (mem ''sqlite3'') world0))
          [(1, [''managed:users:x'', ''ghost''])] no_assignments = Inl (ErrSyntax ''x'')"
    by (simp add: assign_name_users_x)
  then have "bulkAssignRoles no_unicode (mem ''sqlite3'') (index_of [role_x])
               [(1, [''managed:users:x'', ''ghost''])] world0
      = Some (Some (ErrSyntax ''x''), snd (Now (mem ''sqlite3'') world0))"
    by (intro bulkAssignRoles_populate_error) simp_all
  moreover have "snd (Now (mem ''sqlite3'') world0) = world0\<lparr>clock := 101\<rparr>"
    by (simp add: mem_def mem_Now_def world0_def)
  moreover have "lookup_role (index_of [role_x]) 1 ''ghost'' = None"
    by (simp add: lookup_role_def index_of_def role_x_def zero_Role_def)
  ultimately show ?thesis by simp
qed

section \<open>Decoding an assignment name\<close>

lemma HasPrefix_take:
  "HasPrefix name p \<Longrightarrow> HasPrefix name q \<Longrightarrow> length q \<le> length p \<Longrightarrow> take (length q) p = q"
proof -
  assume p: "HasPrefix name p" and q: "HasPrefix name q" and le: "length q \<le> length p"
  from p have "take (length q) p = take (length q) (take (length p) name)"
    by (simp add: HasPrefix_def)
  also from le have "\<dots> = take (length q) name"
    by (simp add: min_def)
  also from q have "\<dots> = q"
    by (simp add: HasPrefix_def)
  finally show ?thesis .
qed

lemma teams_not_users: "HasPrefix name ''managed:teams'' \<Longrightarrow> \<not> HasPrefix name ''managed:users''"
  using HasPrefix_take [of name "''managed:teams''" "''managed:users''"] by auto

lemma builtins_not_users: "HasPrefix name ''managed:builtins'' \<Longrightarrow> \<not> HasPrefix name ''managed:users''"
  using HasPrefix_take [of name "''managed:builtins''" "''managed:users''"] by auto

lemma builtins_not_teams: "HasPrefix name ''managed:builtins'' \<Longrightarrow> \<not> HasPrefix name ''managed:teams''"
  using HasPrefix_take [of name "''managed:builtins''" "''managed:teams''"] by auto

lemma ParseUint_loop_range:
  "ParseUint_loop s0 cs n = Inr m \<Longrightarrow> 0 \<le> n \<Longrightarrow> n \<le> maxUint64 \<Longrightarrow> 0 \<le> m \<and> m \<le> maxUint64"
proof (induction cs arbitrary: n)
  case Nil
  then show ?case by simp
next
  case (Cons c cs)
  let ?n1 = "n * 10 + (int (of_char c) - 48)"
  from Cons.prems(1) have d: "is_digit c" and le: "?n1 \<le> maxUint64"
    and rec: "ParseUint_loop s0 cs ?n1 = Inr m"
    by (auto simp: Let_def split: if_splits)
  from d have "0 \<le> int (of_char c) - 48" by (simp add: is_digit_def)
  with Cons.prems(2) have "0 \<le> ?n1" by simp
  from Cons.IH [OF rec this le] show ?case .
qed

lemma ParseUint_loop_error:
  "ParseUint_loop s0 cs n = Inl err \<Longrightarrow> err = ErrSyntax s0 \<or> err = ErrRange s0"
  by (induction cs arbitrary: n) (auto simp: Let_def split: if_splits)

lemma ParseInt_range: "ParseInt s = Inr n \<Longrightarrow> minInt \<le> n \<and> n \<le> maxInt"
proof -
  assume a: "ParseInt s = Inr n"
  define t where "t = (if hd s = CHR ''+'' \<or> hd s = CHR ''-'' then tl s else s)"
  from a obtain un where u: "ParseUint_loop s t 0 = Inr un"
    and r: "n = (if hd s = CHR ''-'' then - un else un)"
    and b1: "\<not> (hd s \<noteq> CHR ''-'' \<and> un \<ge> 2 ^ 63)" and b2: "\<not> (hd s = CHR ''-'' \<and> un > 2 ^ 63)"
    unfolding ParseInt_def t_def Let_def by (auto split: if_splits sum.splits)
  from ParseUint_loop_range [OF u] have "0 \<le> un" by (simp add: maxUint64_def)
  with r b1 b2 show ?thesis by (auto simp: minInt_def maxInt_def)
qed

lemma ParseInt_error: "ParseInt s = Inl err \<Longrightarrow> err = ErrSyntax s \<or> err = ErrRange s"
  unfolding ParseInt_def Let_def
  by (auto split: if_splits sum.splits dest: ParseUint_loop_error)

text \<open>
  C3 (as amended). For an assignment name whose role is in the Role Index and whose
  colon-split has a third segment: if the name starts with \<open>managed:users\<close> (no colon
  after it is asked for) and the third segment parses as a base-10 \<^verbatim>\<open>int64\<close>, exactly
  one \<^verbatim>\<open>UserRole\<close> with that \<open>UserID\<close>, the role's organisation and identifier and the
  shared timestamp is appended and the other buckets are untouched; if it starts with
  \<open>managed:teams\<close>, one \<^verbatim>\<open>TeamRole\<close> likewise; if it starts with \<open>managed:builtins\<close>, one
  \<^verbatim>\<open>BuiltinRole\<close> whose \<open>Role\<close> is \<^verbatim>\<open>strings.Title\<close> of the third segment, later segments
  being ignored: for a third segment of ASCII bytes that is the segment with every
  letter \<open>a\<close> to \<open>z\<close> that starts it or follows a byte other than a letter, a digit or an
  underscore turned to upper case, whatever the library does elsewhere; for any other
  segment it is what the library returns; a third segment that does not parse makes
  the step fail with the syntax or range error of that segment; and such an error, on
  the first name that cannot be processed, is what \<^verbatim>\<open>bulkAssignRoles\<close> returns, before
  any insert.
\<close>

theorem assign_name_decodes:
  assumes "lookup_role rolesMap orgID name = Some role"
    and "go_index (Split name (CHR '':'')) 2 = Inr seg"
  shows "(HasPrefix name ''managed:users'' \<longrightarrow>
            (\<forall>userID. ParseInt seg = Inr userID \<longrightarrow>
               minInt \<le> userID \<and> userID \<le> maxInt
               \<and> assign_name ut rolesMap ts orgID name b
                   = Inr (b\<lparr>userRoleAssignments := userRoleAssignments b @
                           [\<lparr>u_OrgID = OrgID role, u_RoleID = ID role, UserID = userID,
                             u_Created = ts\<rparr>]\<rparr>))
          \<and> (\<forall>err. ParseInt seg = Inl err \<longrightarrow>
               (err = ErrSyntax seg \<or> err = ErrRange seg)
               \<and> assign_name ut rolesMap ts orgID name b = Inl err))
       \<and> (HasPrefix name ''managed:teams'' \<longrightarrow>
            (\<forall>teamID. ParseInt seg = Inr teamID \<longrightarrow>
               minInt \<le> teamID \<and> teamID \<le> maxInt
               \<and> assign_name ut rolesMap ts orgID name b
                   = Inr (b\<lparr>teamRoleAssignments := teamRoleAssignments b @
                           [\<lparr>t_OrgID = OrgID role, t_RoleID = ID role, TeamID = teamID,
                             t_Created = ts\<rparr>]\<rparr>))
          \<and> (\<forall>err. ParseInt seg = Inl err \<longrightarrow>
               (err = ErrSyntax seg \<or> err = ErrRange seg)
               \<and> assign_name ut rolesMap ts orgID name b = Inl err))
       \<and> (HasPrefix name ''managed:builtins'' \<longrightarrow>
            assign_name ut rolesMap ts orgID name b
              = Inr (b\<lparr>builtInRoleAssignments := builtInRoleAssignments b @
                      [\<lparr>b_RoleID = ID role, b_OrgID = OrgID role, b_Role = Title ut seg,
                        b_Updated = ts, b_Created = ts\<rparr>]\<rparr>)
            \<and> (is_ascii seg \<longrightarrow> Title ut seg = Title_loop (CHR '' '') seg)
            \<and> (\<not> is_ascii seg \<longrightarrow> Title ut seg = ut seg))
       \<and> (\<forall>(sess :: 's Session) s pre ns1 ns2 post b0 err.
             assign_orgs ut rolesMap (fst (Now sess s)) (pre @ [(orgID, ns1)]) no_assignments = Inr b0
             \<and> assign_name ut rolesMap (fst (Now sess s)) orgID name b0 = Inl err
             \<longrightarrow> bulkAssignRoles ut sess rolesMap (pre @ (orgID, ns1 @ name # ns2) # post) s
                   = Some (Some err, snd (Now sess s)))"
proof -
  have users: "HasPrefix name ''managed:users'' \<Longrightarrow> ParseInt seg = Inr userID \<Longrightarrow>
      minInt \<le> userID \<and> userID \<le> maxInt
      \<and> assign_name ut rolesMap ts orgID name b
          = Inr (b\<lparr>userRoleAssignments := userRoleAssignments b @
                  [\<lparr>u_OrgID = OrgID role, u_RoleID = ID role, UserID = userID, u_Created = ts\<rparr>]\<rparr>)"
    for userID
    using assms ParseInt_range [of seg userID] by (simp add: assign_name_def)
  have users_err: "HasPrefix name ''managed:users'' \<Longrightarrow> ParseInt seg = Inl err \<Longrightarrow>
      (err = ErrSyntax seg \<or> err = ErrRange seg) \<and> assign_name ut rolesMap ts orgID name b = Inl err"
    for err
    using assms ParseInt_error [of seg err] by (simp add: assign_name_def)
  have teams: "HasPrefix name ''managed:teams'' \<Longrightarrow> ParseInt seg = Inr teamID \<Longrightarrow>
      minInt \<le> teamID \<and> teamID \<le> maxInt
      \<and> assign_name ut rolesMap ts orgID name b
          = Inr (b\<lparr>teamRoleAssignments := teamRoleAssignments b @
                  [\<lparr>t_OrgID = OrgID role, t_RoleID = ID role, TeamID = teamID, t_Created = ts\<rparr>]\<rparr>)"
    for teamID
    using assms ParseInt_range [of seg teamID] teams_not_users [of name]
    by (simp add: assign_name_def)
  have teams_err: "HasPrefix name ''managed:teams'' \<Longrightarrow> ParseInt seg = Inl err \<Longrightarrow>
      (err = ErrSyntax seg \<or> err = ErrRange seg) \<and> assign_name ut rolesMap ts orgID name b = Inl err"
    for err
    using assms ParseInt_error [of seg err] teams_not_users [of name]
    by (simp add: assign_name_def)
  have builtins: "HasPrefix name ''managed:builtins'' \<Longrightarrow>
      assign_name ut rolesMap ts orgID name b
        = Inr (b\<lparr>builtInRoleAssignments := builtInRoleAssignments b @
                [\<lparr>b_RoleID = ID role, b_OrgID = OrgID role, b_Role = Title ut seg,
                  b_Updated = ts, b_Created = ts\<rparr>]\<rparr>)"
    using assms builtins_not_users [of name] builtins_not_teams [of name]
    by (simp add: assign_name_def)
  have propagate: "bulkAssignRoles ut sess rolesMap (pre @ (orgID, ns1 @ name # ns2) # post) s
                = Some (Some err, snd (Now sess s))"
    if ok: "assign_orgs ut rolesMap (fst (Now sess s)) (pre @ [(orgID, ns1)]) no_assignments = Inr b0"
      and bad: "assign_name ut rolesMap (fst (Now sess s)) orgID name b0 = Inl err"
    for sess :: "'s Session" and s pre ns1 ns2 post b0 err
  proof -
    have "assign_orgs ut rolesMap (fst (Now sess s)) (pre @ (orgID, ns1 @ name # ns2) # post)
            no_assignments = Inl err"
      by (simp only: assign_orgs_split ok bad sum.case)
    then show ?thesis
      by (intro bulkAssignRoles_populate_error) simp_all
  qed
  show ?thesis
  proof (intro conjI impI allI)
    fix userID
    assume "HasPrefix name ''managed:users''" and "ParseInt seg = Inr userID"
    from users [OF this] show "minInt \<le> userID" and "userID \<le> maxInt"
      and "assign_name ut rolesMap ts orgID name b
          = Inr (b\<lparr>userRoleAssignments := userRoleAssignments b @
                  [\<lparr>u_OrgID = OrgID role, u_RoleID = ID role, UserID = userID, u_Created = ts\<rparr>]\<rparr>)"
      by simp_all
  next
    fix err
    assume "HasPrefix name ''managed:users''" and "ParseInt seg = Inl err"
    from users_err [OF this] show "err = ErrSyntax seg \<or> err = ErrRange seg"
      and "assign_name ut rolesMap ts orgID name b = Inl err"
      by simp_all
  next
    fix teamID
    assume "HasPrefix name ''managed:teams''" and "ParseInt seg = Inr teamID"
    from teams [OF this] show "minInt \<le> teamID" and "teamID \<le> maxInt"
      and "assign_name ut rolesMap ts orgID name b
          = Inr (b\<lparr>teamRoleAssignments := teamRoleAssignments b @
                  [\<lparr>t_OrgID = OrgID role, t_RoleID = ID role, TeamID = teamID, t_Created = ts\<rparr>]\<rparr>)"
      by simp_all
  next
    fix err
    assume "HasPrefix name ''managed:teams''" and "ParseInt seg = Inl err"
    from teams_err [OF this] show "err = ErrSyntax seg \<or> err = ErrRange seg"
      and "assign_name ut rolesMap ts orgID name b = Inl err"
      by simp_all
  next
    assume "HasPrefix name ''managed:builtins''"
    from builtins [OF this] show "assign_name ut rolesMap ts orgID name b
        = Inr (b\<lparr>builtInRoleAssignments := builtInRoleAssignments b @
                [\<lparr>b_RoleID = ID role, b_OrgID = OrgID role, b_Role = Title ut seg,
                  b_Updated = ts, b_Created = ts\<rparr>]\<rparr>)" .
  next
    assume "is_ascii seg"
    then show "Title ut seg = Title_loop (CHR '' '') seg" by (simp add: Title_def)
  next
    assume "\<not> is_ascii seg"
    then show "Title ut seg = ut seg" by (simp add: Title_def)
  next
    fix sess :: "'s Session" and s pre ns1 ns2 post b0 err
    assume a: "assign_orgs ut rolesMap (fst (Now sess s)) (pre @ [(orgID, ns1)]) no_assignments = Inr b0
             \<and> assign_name ut rolesMap (fst (Now sess s)) orgID name b0 = Inl err"
    show "bulkAssignRoles ut sess rolesMap (pre @ (orgID, ns1 @ name # ns2) # post) s
                   = Some (Some err, snd (Now sess s))"
      using propagate [OF conjunct1 [OF a] conjunct2 [OF a]] .
  qed
qed

theorem assign_name_decodes_witness:
  "assign_name no_unicode (index_of [role_42, role_t7, role_editor]) 100 1 ''managed:users:42'' no_assignments
     = Inr (no_assignments\<lparr>userRoleAssignments :=
              [\<lparr>u_OrgID = 1, u_RoleID = 11, UserID = 42, u_Created = 100\<rparr>]\<rparr>)
   \<and> assign_name no_unicode (index_of [role_42, role_t7, role_editor]) 100 1 ''managed:teams:7'' no_assignments
     = Inr (no_assignments\<lparr>teamRoleAssignments :=
              [\<lparr>t_OrgID = 1, t_RoleID = 12, TeamID = 7, t_Created = 100\<rparr>]\<rparr>)
   \<and> assign_name no_unicode (index_of [role_42, role_t7, role_editor]) 100 1 ''managed:builtins:editor:extra''
         no_assignments
     = Inr (no_assignments\<lparr>builtInRoleAssignments :=
              [\<lparr>b_RoleID = 13, b_OrgID = 1, b_Role = ''Editor'', b_Updated = 100,
                b_Created = 100\<rparr>]\<rparr>)"
proof -
  let ?rm = "index_of [role_42, role_t7, role_editor]"
  have l1: "lookup_role ?rm 1 ''managed:users:42'' = Some role_42"
    and l2: "lookup_role ?rm 1 ''managed:teams:7'' = Some role_t7"
    and l3: "lookup_role ?rm 1 ''managed:builtins:editor:extra'' = Some role_editor"
    by (simp_all add: lookup_role_def index_of_def role_42_def role_t7_def role_editor_def)
  have g1: "go_index (Split ''managed:users:42'' (CHR '':'')) 2 = Inr ''42''"
    and g2: "go_index (Split ''managed:teams:7'' (CHR '':'')) 2 = Inr ''7''"
    and g3: "go_index (Split ''managed:builtins:editor:extra'' (CHR '':'')) 2 = Inr ''editor''"
    by code_simp+
  have h1: "HasPrefix ''managed:users:42'' ''managed:users''"
    and h2: "HasPrefix ''managed:teams:7'' ''managed:teams''"
    and h3: "HasPrefix ''managed:builtins:editor:extra'' ''managed:builtins''"
    by code_simp+
  have p1: "ParseInt ''42'' = Inr 42" and p2: "ParseInt ''7'' = Inr 7"
    and t3: "Title no_unicode ''editor'' = ''Editor''"
    by code_simp+
  from assign_name_decodes [OF l1 g1, of no_unicode 100 no_assignments, THEN conjunct1] h1 p1
  have 1: "assign_name no_unicode ?rm 100 1 ''managed:users:42'' no_assignments
     = Inr (no_assignments\<lparr>userRoleAssignments :=
              [\<lparr>u_OrgID = 1, u_RoleID = 11, UserID = 42, u_Created = 100\<rparr>]\<rparr>)"
    by (simp add: role_42_def zero_Role_def no_assignments_def)
  from assign_name_decodes [OF l2 g2, of no_unicode 100 no_assignments, THEN conjunct2, THEN conjunct1] h2 p2
  have 2: "assign_name no_unicode ?rm 100 1 ''managed:teams:7'' no_assignments
     = Inr (no_assignments\<lparr>teamRoleAssignments :=
              [\<lparr>t_OrgID = 1, t_RoleID = 12, TeamID = 7, t_Created = 100\<rparr>]\<rparr>)"
    by (simp add: role_t7_def zero_Role_def no_assignments_def)
  from assign_name_decodes [OF l3 g3, of no_unicode 100 no_assignments, THEN conjunct2, THEN conjunct2,
         THEN conjunct1] h3 t3
  have 3: "assign_name no_unicode ?rm 100 1 ''managed:builtins:editor:extra'' no_assignments
     = Inr (no_assignments\<lparr>builtInRoleAssignments :=
              [\<lparr>b_RoleID = 13, b_OrgID = 1, b_Role = ''Editor'', b_Updated = 100,
                b_Created = 100\<rparr>]\<rparr>)"
    by (simp add: role_editor_def zero_Role_def no_assignments_def)
  from 1 2 3 show ?thesis by (intro conjI)
qed

text \<open>
  C3 as stated fails in its classification: \<open>managed:usersX:5\<close> starts with none of the
  prefixes \<open>managed:users:\<close>, \<open>managed:teams:\<close>, \<open>managed:builtins:\<close>, yet it is decoded as
  an assignment to user 5.
\<close>

theorem assign_name_prefix_counterexample:
  "\<not> HasPrefix ''managed:usersX:5'' ''managed:users:''
   \<and> \<not> HasPrefix ''managed:usersX:5'' ''managed:teams:''
   \<and> \<not> HasPrefix ''managed:usersX:5'' ''managed:builtins:''
   \<and> assign_name no_unicode (index_of [role_usersX]) 100 1 ''managed:usersX:5'' no_assignments
       = Inr (no_assignments\<lparr>userRoleAssignments :=
                [\<lparr>u_OrgID = 1, u_RoleID = 14, UserID = 5, u_Created = 100\<rparr>]\<rparr>)"
proof -
  have "\<not> HasPrefix ''managed:usersX:5'' ''managed:users:''"
    and "\<not> HasPrefix ''managed:usersX:5'' ''managed:teams:''"
    and "\<not> HasPrefix ''managed:usersX:5'' ''managed:builtins:''"
    by code_simp+
  moreover have "HasPrefix ''managed:usersX:5'' ''managed:users''"
    and "go_index (Split ''managed:usersX:5'' (CHR '':'')) 2 = Inr ''5''"
    and "ParseInt ''5'' = Inr 5"
    by code_simp+
  moreover have "lookup_role (index_of [role_usersX]) 1 ''managed:usersX:5'' = Some role_usersX"
    by (simp add: lookup_role_def index_of_def role_usersX_def)
  ultimately show ?thesis
    by (simp add: assign_name_def role_usersX_def zero_Role_def no_assignments_def)
qed

section \<open>Names that are not managed assignments\<close>

lemma assign_name_skip:
  "lookup_role rm orgID name = Some role \<Longrightarrow> \<not> HasPrefix name ''managed:users''
     \<Longrightarrow> \<not> HasPrefix name ''managed:teams'' \<Longrightarrow> \<not> HasPrefix name ''managed:builtins''
     \<Longrightarrow> assign_name ut rm ts orgID name b = Inr b"
  by (simp add: assign_name_def)

lemma assign_orgs_drop_name:
  assumes "\<And>b. assign_name ut rm ts orgID name b = Inr b"
  shows "assign_orgs ut rm ts (pre @ (orgID, ns1 @ name # ns2) # post) b
           = assign_orgs ut rm ts (pre @ (orgID, ns1 @ ns2) # post) b"
proof -
  have "assign_names ut rm ts orgID (ns1 @ name # ns2) b' = assign_names ut rm ts orgID (ns1 @ ns2) b'"
    for b'
    by (simp add: assign_names_append assms split: sum.splits)
  then show ?thesis
    by (simp add: assign_orgs_append split: sum.splits)
qed

text \<open>
  C8 (as amended). A name that is in the Role Index and starts with none of the prefixes
  the code tests, \<open>managed:users\<close>, \<open>managed:teams\<close> and \<open>managed:builtins\<close> (with no colon
  after them), is skipped: the loop body leaves every bucket as it was and returns no
  error, and the whole call behaves exactly as it does on the assignments without that
  name.
\<close>

theorem bulkAssignRoles_skips_other_names:
  assumes "lookup_role rolesMap orgID name = Some role"
    and "\<not> HasPrefix name ''managed:users''"
    and "\<not> HasPrefix name ''managed:teams''"
    and "\<not> HasPrefix name ''managed:builtins''"
  shows "assign_name ut rolesMap ts orgID name b = Inr b
       \<and> bulkAssignRoles ut sess rolesMap (pre @ (orgID, ns1 @ name # ns2) # post) s
           = bulkAssignRoles ut sess rolesMap (pre @ (orgID, ns1 @ ns2) # post) s"
proof -
  have skip: "assign_name ut rolesMap ts' orgID name b' = Inr b'" for ts' b'
    using assms by (rule assign_name_skip)
  have "assign_orgs ut rolesMap ts' (pre @ (orgID, ns1 @ name # ns2) # post) no_assignments
          = assign_orgs ut rolesMap ts' (pre @ (orgID, ns1 @ ns2) # post) no_assignments" for ts'
    by (rule assign_orgs_drop_name) (rule skip)
  then have "bulkAssignRoles ut sess rolesMap (pre @ (orgID, ns1 @ name # ns2) # post) s
           = bulkAssignRoles ut sess rolesMap (pre @ (orgID, ns1 @ ns2) # post) s"
    by (cases "Now sess s") (simp add: bulkAssignRoles_def)
  with skip show ?thesis by simp
qed

lemma bulkAssignRoles_nothing_to_write:
  "assignments \<noteq> [] \<Longrightarrow> assign_orgs ut rm (fst (Now sess s)) assignments no_assignments = Inr no_assignments
     \<Longrightarrow> bulkAssignRoles ut sess rm assignments s = Some (None, snd (Now sess s))"
  by (cases "Now sess s") (simp add: bulkAssignRoles_def no_assignments_def batch_zero)

theorem bulkAssignRoles_skips_other_names_witness:
  "assign_name no_unicode (index_of [role_custom]) 100 1 ''custom:role'' no_assignments = Inr no_assignments
   \<and> bulkAssignRoles no_unicode (mem ''sqlite3'') (index_of [role_custom]) [(1, [''custom:role''])] world0
       = Some (None, world0\<lparr>clock := 101\<rparr>)"
proof -
  have l: "lookup_role (index_of [role_custom]) 1 ''custom:role'' = Some role_custom"
    by (simp add: lookup_role_def index_of_def role_custom_def)
  have h: "\<not> HasPrefix ''custom:role'' ''managed:users''"
    "\<not> HasPrefix ''custom:role'' ''managed:teams''"
    "\<not> HasPrefix ''custom:role'' ''managed:builtins''"
    by code_simp+
  have e: "bulkAssignRoles no_unicode (mem ''sqlite3'') (index_of [role_custom]) [(1, [])] world0
             = Some (None, world0\<lparr>clock := 101\<rparr>)"
    by (subst bulkAssignRoles_nothing_to_write) (simp_all add: mem_def mem_Now_def world0_def)
  from bulkAssignRoles_skips_other_names [OF l h, of no_unicode 100 no_assignments "mem ''sqlite3''" "[]" "[]" "[]" "[]" world0]
  show ?thesis by (simp add: e)
qed

text \<open>
  C8 as stated fails for the recognized prefixes of the specification, which end in a
  colon: \<open>managed:teamsX:9\<close> starts with none of \<open>managed:users:\<close>, \<open>managed:teams:\<close>,
  \<open>managed:builtins:\<close> and is in the index, yet it is not skipped: a \<^verbatim>\<open>TeamRole\<close> for team
  9 is appended for it, and the call inserts it.
\<close>

theorem bulkAssignRoles_colon_prefix_counterexample:
  "\<not> HasPrefix ''managed:teamsX:9'' ''managed:users:''
   \<and> \<not> HasPrefix ''managed:teamsX:9'' ''managed:teams:''
   \<and> \<not> HasPrefix ''managed:teamsX:9'' ''managed:builtins:''
   \<and> lookup_role (index_of [role_teamsX]) 1 ''managed:teamsX:9'' = Some role_teamsX
   \<and> assign_name no_unicode (index_of [role_teamsX]) 100 1 ''managed:teamsX:9'' no_assignments
       = Inr (no_assignments\<lparr>teamRoleAssignments :=
                [\<lparr>t_OrgID = 1, t_RoleID = 17, TeamID = 9, t_Created = 100\<rparr>]\<rparr>)
   \<and> map_option (\<lambda>r. (fst r, journal (snd r)))
         (bulkAssignRoles no_unicode (mem ''sqlite3'') (index_of [role_teamsX])
            [(1, [''managed:teamsX:9''])] world0)
       = Some (None, [InsertTeamRoles [\<lparr>t_OrgID = 1, t_RoleID = 17, TeamID = 9, t_Created = 100\<rparr>]])"
proof -
  have 1: "\<not> HasPrefix ''managed:teamsX:9'' ''managed:users:''"
    and 2: "\<not> HasPrefix ''managed:teamsX:9'' ''managed:teams:''"
    and 3: "\<not> HasPrefix ''managed:teamsX:9'' ''managed:builtins:''"
    by code_simp+
  have 4: "lookup_role (index_of [role_teamsX]) 1 ''managed:teamsX:9'' = Some role_teamsX"
    by (simp add: lookup_role_def index_of_def role_teamsX_def)
  have 5: "assign_name no_unicode (index_of [role_teamsX]) 100 1 ''managed:teamsX:9'' no_assignments
       = Inr (no_assignments\<lparr>teamRoleAssignments :=
                [\<lparr>t_OrgID = 1, t_RoleID = 17, TeamID = 9, t_Created = 100\<rparr>]\<rparr>)"
    by code_simp
  have 6: "map_option (\<lambda>r. (fst r, journal (snd r)))
         (bulkAssignRoles no_unicode (mem ''sqlite3'') (index_of [role_teamsX])
            [(1, [''managed:teamsX:9''])] world0)
       = Some (None, [InsertTeamRoles [\<lparr>t_OrgID = 1, t_RoleID = 17, TeamID = 9, t_Created = 100\<rparr>]])"
    by code_simp
  from 1 2 3 4 5 6 show ?thesis by (intro conjI)
qed

section \<open>The index into the colon-split\<close>

lemma assign_name_panic:
  "assign_name ut rm ts orgID name b = Inl (PanicIndexOutOfRange i n)
     \<Longrightarrow> (HasPrefix name ''managed:users'' \<or> HasPrefix name ''managed:teams''
            \<or> HasPrefix name ''managed:builtins'')
         \<and> length (Split name (CHR '':'')) < 3"
  unfolding assign_name_def go_index_def
  by (auto split: option.splits if_splits sum.splits dest: ParseInt_error)

lemma assign_names_panic:
  "assign_names ut rm ts orgID names b = Inl (PanicIndexOutOfRange i n)
     \<Longrightarrow> \<exists>name \<in> set names.
           (HasPrefix name ''managed:users'' \<or> HasPrefix name ''managed:teams''
            \<or> HasPrefix name ''managed:builtins'')
           \<and> length (Split name (CHR '':'')) < 3"
proof (induction names arbitrary: b)
  case Nil
  then show ?case by simp
next
  case (Cons a names)
  show ?case
  proof (cases "assign_name ut rm ts orgID a b")
    case (Inl e)
    with Cons.prems have "assign_name ut rm ts orgID a b = Inl (PanicIndexOutOfRange i n)" by simp
    from assign_name_panic [OF this] show ?thesis by simp
  next
    case (Inr b')
    with Cons.prems have "assign_names ut rm ts orgID names b' = Inl (PanicIndexOutOfRange i n)" by simp
    from Cons.IH [OF this] show ?thesis by auto
  qed
qed

lemma assign_orgs_panic:
  "assign_orgs ut rm ts assignments b = Inl (PanicIndexOutOfRange i n)
     \<Longrightarrow> \<exists>(orgID, names) \<in> set assignments. \<exists>name \<in> set names.
           (HasPrefix name ''managed:users'' \<or> HasPrefix name ''managed:teams''
            \<or> HasPrefix name ''managed:builtins'')
           \<and> length (Split name (CHR '':'')) < 3"
proof (induction assignments arbitrary: b)
  case Nil
  then show ?case by simp
next
  case (Cons a assignments)
  obtain o1 ns where a: "a = (o1, ns)" by (cases a)
  show ?case
  proof (cases "assign_names ut rm ts o1 ns b")
    case (Inl e)
    with Cons.prems a have "assign_names ut rm ts o1 ns b = Inl (PanicIndexOutOfRange i n)" by simp
    from assign_names_panic [OF this] a show ?thesis by auto
  next
    case (Inr b')
    with Cons.prems a have "assign_orgs ut rm ts assignments b' = Inl (PanicIndexOutOfRange i n)" by simp
    from Cons.IH [OF this] show ?thesis by auto
  qed
qed

text \<open>
  C10. The segment is read as element 2 of the colon-split without a bounds check. If
  every assignment name that starts with \<open>managed:users\<close>, \<open>managed:teams\<close> or
  \<open>managed:builtins\<close> has at least three colon-separated segments, populating the
  buckets never panics with an index out of range; without this, the name
  \<open>managed:users\<close>, present in the index, makes the access go out of bounds (index 2 of
  a slice of length 2), in the loop body and in the whole call.
\<close>

theorem assign_index_in_bounds:
  "((\<forall>(orgID, roleNames) \<in> set assignments. \<forall>name \<in> set roleNames.
        HasPrefix name ''managed:users'' \<or> HasPrefix name ''managed:teams''
          \<or> HasPrefix name ''managed:builtins''
        \<longrightarrow> 3 \<le> length (Split name (CHR '':'')))
      \<longrightarrow> (\<forall>i n. assign_orgs ut rolesMap ts assignments b \<noteq> Inl (PanicIndexOutOfRange i n)))
   \<and> (lookup_role rolesMap orgID ''managed:users'' = Some role
      \<longrightarrow> assign_name ut rolesMap ts orgID ''managed:users'' b = Inl (PanicIndexOutOfRange 2 2)
        \<and> (\<forall>(sess :: 's Session) s.
              bulkAssignRoles ut sess rolesMap [(orgID, [''managed:users''])] s
                = Some (Some (PanicIndexOutOfRange 2 2), snd (Now sess s))))"
proof (intro conjI impI allI)
  fix i n
  assume pre: "\<forall>(orgID, roleNames) \<in> set assignments. \<forall>name \<in> set roleNames.
        HasPrefix name ''managed:users'' \<or> HasPrefix name ''managed:teams''
          \<or> HasPrefix name ''managed:builtins''
        \<longrightarrow> 3 \<le> length (Split name (CHR '':''))"
  show "assign_orgs ut rolesMap ts assignments b \<noteq> Inl (PanicIndexOutOfRange i n)"
  proof
    assume "assign_orgs ut rolesMap ts assignments b = Inl (PanicIndexOutOfRange i n)"
    from assign_orgs_panic [OF this] pre show False by fastforce
  qed
next
  assume l: "lookup_role rolesMap orgID ''managed:users'' = Some role"
  have h: "HasPrefix ''managed:users'' ''managed:users''"
    and g: "go_index (Split ''managed:users'' (CHR '':'')) 2 = Inl (PanicIndexOutOfRange 2 2)"
    by code_simp+
  show p: "assign_name ut rolesMap ts orgID ''managed:users'' b = Inl (PanicIndexOutOfRange 2 2)" for ts b
    using l h g by (simp add: assign_name_def)
  fix sess :: "'s Session" and s
  show "bulkAssignRoles ut sess rolesMap [(orgID, [''managed:users''])] s
                = Some (Some (PanicIndexOutOfRange 2 2), snd (Now sess s))"
    by (rule bulkAssignRoles_populate_error) (simp_all add: p)
qed

theorem assign_index_in_bounds_witness:
  "assign_orgs no_unicode (index_of [role_42, role_short]) 100 [(1, [''managed:users:42''])] no_assignments
     \<noteq> Inl (PanicIndexOutOfRange 2 2)
   \<and> assign_name no_unicode (index_of [role_42, role_short]) 100 1 ''managed:users'' no_assignments
       = Inl (PanicIndexOutOfRange 2 2)"
proof -
  let ?rm = "index_of [role_42, role_short]"
  have s3: "3 \<le> length (Split ''managed:users:42'' (CHR '':''))"
    by code_simp
  have l: "lookup_role ?rm 1 ''managed:users'' = Some role_short"
    by (simp add: lookup_role_def index_of_def role_42_def role_short_def)
  note t = assign_index_in_bounds
             [where ?'s = World and ut = no_unicode and assignments = "[(1, [''managed:users:42''])]"
                and rolesMap = ?rm and ts = 100 and b = no_assignments and orgID = 1
                and role = role_short]
  from t [THEN conjunct1] s3
  have 1: "assign_orgs no_unicode ?rm 100 [(1, [''managed:users:42''])] no_assignments
             \<noteq> Inl (PanicIndexOutOfRange 2 2)"
    by simp
  from t [THEN conjunct2, THEN mp, OF l, THEN conjunct1]
  have 2: "assign_name no_unicode ?rm 100 1 ''managed:users'' no_assignments = Inl (PanicIndexOutOfRange 2 2)" .
  from 1 2 show ?thesis by (rule conjI)
qed

section \<open>The order of the bulk inserts\<close>

lemma go_slice_in_bounds:
  "0 \<le> a \<Longrightarrow> a \<le> b \<Longrightarrow> b \<le> int (length rows)
     \<Longrightarrow> go_slice rows a b = Inr (take (nat (b - a)) (drop (nat a) rows))"
  by (simp add: go_slice_def)

lemma run_windows_insert:
  assumes r: "\<And>rows w. fst (ins rows w) = next_fault w"
    and j: "\<And>rows w. journal (snd (ins rows w)) = journal w @ [C rows]"
    and f: "\<And>rows w. faults (snd (ins rows w)) = tl (faults w)"
    and bounds: "\<forall>(a, b) \<in> set ws. 0 \<le> a \<and> a \<le> b \<and> b \<le> int (length rows)"
  shows "fst (run_windows (insert_window ins rows) ws w)
           = snd (run_statements (map (\<lambda>(a, b). C (take (nat (b - a)) (drop (nat a) rows))) ws) (faults w))
       \<and> journal (snd (run_windows (insert_window ins rows) ws w))
           = journal w @ fst (run_statements (map (\<lambda>(a, b). C (take (nat (b - a)) (drop (nat a) rows))) ws) (faults w))
       \<and> (fst (run_windows (insert_window ins rows) ws w) = None
            \<longrightarrow> faults (snd (run_windows (insert_window ins rows) ws w)) = drop (length ws) (faults w))"
  using bounds
proof (induction ws arbitrary: w)
  case Nil
  then show ?case by simp
next
  case (Cons p ws)
  obtain a b where p: "p = (a, b)" by (cases p)
  let ?rows = "take (nat (b - a)) (drop (nat a) rows)"
  from Cons.prems p have ab: "0 \<le> a" "a \<le> b" "b \<le> int (length rows)" by auto
  have iw: "insert_window ins rows a b w = ins ?rows w"
    by (simp add: insert_window_def go_slice_in_bounds [OF ab])
  obtain e w1 where i: "ins ?rows w = (e, w1)" by (cases "ins ?rows w")
  from r [of ?rows w] j [of ?rows w] f [of ?rows w] i
  have e: "e = next_fault w" and j1: "journal w1 = journal w @ [C ?rows]"
    and f1: "faults w1 = tl (faults w)" by simp_all
  show ?case
  proof (cases e)
    case (Some err)
    with e have "(case faults w of [] \<Rightarrow> None | f # _ \<Rightarrow> f) = Some err"
      by (simp add: next_fault_def)
    with Some i iw j1 p show ?thesis by simp
  next
    case None
    with e have nf: "(case faults w of [] \<Rightarrow> None | f # _ \<Rightarrow> f) = None"
      by (simp add: next_fault_def)
    from Cons.prems have "\<forall>(a, b) \<in> set ws. 0 \<le> a \<and> a \<le> b \<and> b \<le> int (length rows)" by simp
    from Cons.IH [OF this, of w1] None i iw j1 f1 p nf show ?thesis
      by (simp add: split_beta drop_Suc)
  qed
qed

lemma run_statements_append:
  "run_statements (xs @ ys) fs
     = (case run_statements xs fs of
          (i1, Some err) \<Rightarrow> (i1, Some err)
        | (i1, None) \<Rightarrow>
            (case run_statements ys (drop (length xs) fs) of (i2, r) \<Rightarrow> (i1 @ i2, r)))"
proof (induction xs arbitrary: fs)
  case Nil
  then show ?case by simp
next
  case (Cons x xs)
  show ?case
    by (simp add: Cons.IH drop_Suc split: option.split prod.split list.split)
qed

lemma run_statements_all:
  "snd (run_statements sts fs) = None \<Longrightarrow> fst (run_statements sts fs) = sts"
  by (induction sts arbitrary: fs) (auto simp: split_beta split: option.splits list.splits)

lemma run_statements_stop:
  "snd (run_statements sts fs) = Some err
     \<Longrightarrow> \<exists>n < length sts. fst (run_statements sts fs) = take (Suc n) sts
           \<and> n < length fs \<and> fs ! n = Some err \<and> (\<forall>k < n. fs ! k = None)"
proof (induction sts arbitrary: fs)
  case Nil
  then show ?case by simp
next
  case (Cons st sts)
  show ?case
  proof (cases fs)
    case Nil
    with Cons.prems have "snd (run_statements sts []) = Some err"
      by (simp add: split_beta)
    from Cons.IH [OF this] show ?thesis by simp
  next
    case (Cons f fs')
    show ?thesis
    proof (cases f)
      case (Some e)
      with Cons Cons.prems have "e = err" by simp
      with Some Cons show ?thesis by (intro exI [of _ 0]) simp
    next
      case None
      with Cons Cons.prems have "snd (run_statements sts fs') = Some err"
        by (simp add: split_beta)
      from Cons.IH [OF this] obtain n where n: "n < length sts"
        "fst (run_statements sts fs') = take (Suc n) sts" "n < length fs'" "fs' ! n = Some err"
        "\<forall>k < n. fs' ! k = None" by blast
      have "\<forall>k < Suc n. fs ! k = None"
        using n(5) None Cons by (auto simp: nth_Cons split: nat.splits)
      with n None Cons show ?thesis
        by (intro exI [of _ "Suc n"]) (simp add: split_beta)
    qed
  qed
qed

lemma one_bucket:
  assumes r: "\<And>rows w. fst (ins rows w) = next_fault w"
    and j: "\<And>rows w. journal (snd (ins rows w)) = journal w @ [C rows]"
    and f: "\<And>rows w. faults (snd (ins rows w)) = tl (faults w)"
    and len: "int (length rows) + batchSize \<le> maxInt"
  shows "\<exists>w'. batch (int (length rows)) batchSize (insert_window ins rows) w
                 = Some (snd (run_statements (map C (chunks rows)) (faults w)), w')
            \<and> journal w' = journal w @ fst (run_statements (map C (chunks rows)) (faults w))
            \<and> (snd (run_statements (map C (chunks rows)) (faults w)) = None
                 \<longrightarrow> faults w' = drop (length (chunks rows)) (faults w))"
proof -
  let ?ws = "windows_from 0 (int (length rows)) batchSize"
  have run: "batch (int (length rows)) batchSize (insert_window ins rows) w
               = Some (run_windows (insert_window ins rows) ?ws w)"
    using len by (intro batch_run) (simp_all add: batchSize_def)
  have bounds: "\<forall>(a, b) \<in> set ?ws. 0 \<le> a \<and> a \<le> b \<and> b \<le> int (length rows)"
    using windows_from_bounds [of _ _ 0 "int (length rows)" batchSize] by fastforce
  have m: "map C (chunks rows) = map (\<lambda>(a, b). C (take (nat (b - a)) (drop (nat a) rows))) ?ws"
    by (simp add: chunks_def split_beta)
  have l: "length (chunks rows) = length ?ws"
    by (simp add: chunks_def)
  obtain e w' where rw: "run_windows (insert_window ins rows) ?ws w = (e, w')"
    by (cases "run_windows (insert_window ins rows) ?ws w")
  from run_windows_insert [of ins C ?ws rows w, OF r j f bounds] rw
  have "e = snd (run_statements (map C (chunks rows)) (faults w))"
    and "journal w' = journal w @ fst (run_statements (map C (chunks rows)) (faults w))"
    and "e = None \<longrightarrow> faults w' = drop (length (chunks rows)) (faults w)"
    unfolding m l by simp_all
  with run rw show ?thesis by simp
qed

lemma mem_insert_user_roles_fault:
  "fst (mem_insert_user_roles rows w) = next_fault w"
  "journal (snd (mem_insert_user_roles rows w)) = journal w @ [InsertUserRoles rows]"
  "faults (snd (mem_insert_user_roles rows w)) = tl (faults w)"
  by (simp_all add: mem_insert_user_roles_def issue_def next_fault_def split: list.split option.split)

lemma mem_insert_team_roles_fault:
  "fst (mem_insert_team_roles rows w) = next_fault w"
  "journal (snd (mem_insert_team_roles rows w)) = journal w @ [InsertTeamRoles rows]"
  "faults (snd (mem_insert_team_roles rows w)) = tl (faults w)"
  by (simp_all add: mem_insert_team_roles_def issue_def next_fault_def split: list.split option.split)

lemma mem_insert_builtin_roles_fault:
  "fst (mem_insert_builtin_roles rows w) = next_fault w"
  "journal (snd (mem_insert_builtin_roles rows w)) = journal w @ [InsertBuiltinRoles rows]"
  "faults (snd (mem_insert_builtin_roles rows w)) = tl (faults w)"
  by (simp_all add: mem_insert_builtin_roles_def issue_def next_fault_def split: list.split option.split)

lemma assign_name_lengths:
  "assign_name ut rm ts orgID name b = Inr b'
     \<Longrightarrow> length (userRoleAssignments b') \<le> length (userRoleAssignments b) + 1
       \<and> length (teamRoleAssignments b') \<le> length (teamRoleAssignments b) + 1
       \<and> length (builtInRoleAssignments b') \<le> length (builtInRoleAssignments b) + 1"
  unfolding assign_name_def
  by (auto split: option.splits if_splits sum.splits)

lemma assign_names_lengths:
  "assign_names ut rm ts orgID names b = Inr b'
     \<Longrightarrow> length (userRoleAssignments b') \<le> length (userRoleAssignments b) + length names
       \<and> length (teamRoleAssignments b') \<le> length (teamRoleAssignments b) + length names
       \<and> length (builtInRoleAssignments b') \<le> length (builtInRoleAssignments b) + length names"
proof (induction names arbitrary: b)
  case Nil
  then show ?case by simp
next
  case (Cons a names)
  from Cons.prems obtain b1 where 1: "assign_name ut rm ts orgID a b = Inr b1"
    and 2: "assign_names ut rm ts orgID names b1 = Inr b'"
    by (auto split: sum.splits)
  from assign_name_lengths [OF 1] Cons.IH [OF 2] show ?case by simp
qed

lemma assign_orgs_lengths:
  "assign_orgs ut rm ts assignments b = Inr b'
     \<Longrightarrow> length (userRoleAssignments b')
           \<le> length (userRoleAssignments b) + length (concat (map snd assignments))
       \<and> length (teamRoleAssignments b')
           \<le> length (teamRoleAssignments b) + length (concat (map snd assignments))
       \<and> length (builtInRoleAssignments b')
           \<le> length (builtInRoleAssignments b) + length (concat (map snd assignments))"
proof (induction assignments arbitrary: b)
  case Nil
  then show ?case by simp
next
  case (Cons a assignments)
  obtain o1 ns where a: "a = (o1, ns)" by (cases a)
  from Cons.prems a obtain b1 where 1: "assign_names ut rm ts o1 ns b = Inr b1"
    and 2: "assign_orgs ut rm ts assignments b1 = Inr b'"
    by (auto split: sum.splits)
  from assign_names_lengths [OF 1] Cons.IH [OF 2] a show ?case by simp
qed

lemma windows_from_slices:
  "0 < bsize \<Longrightarrow> 0 \<le> i \<Longrightarrow> i \<le> int (length xs)
     \<Longrightarrow> concat (map (\<lambda>(a, b). take (nat (b - a)) (drop (nat a) xs))
                  (windows_from i (int (length xs)) bsize)) = drop (nat i) xs"
proof (induction i "int (length xs)" bsize rule: windows_from.induct)
  case (1 i bsize)
  show ?case
  proof (cases "i < int (length xs)")
    case False
    with 1 show ?thesis by (subst windows_from.simps) simp
  next
    case True
    define e where "e = min (i + bsize) (int (length xs))"
    have ie: "i < e" "e \<le> int (length xs)" "0 \<le> e" using True 1 by (simp_all add: e_def)
    have rec: "concat (map (\<lambda>(a, b). take (nat (b - a)) (drop (nat a) xs))
            (windows_from e (int (length xs)) bsize)) = drop (nat e) xs"
      using 1 True ie unfolding e_def by simp
    have d2: "drop (nat e) xs = drop (nat (e - i)) (drop (nat i) xs)"
      using ie 1 by (simp add: nat_diff_distrib')
    have step: "take (nat (e - i)) (drop (nat i) xs) @ drop (nat e) xs = drop (nat i) xs"
      unfolding d2 by (rule append_take_drop_id)
    have w: "windows_from i (int (length xs)) bsize
               = (i, e) # windows_from e (int (length xs)) bsize"
      using True 1 by (subst windows_from.simps) (simp add: e_def)
    show ?thesis
      by (simp only: w list.map concat.simps prod.case rec step)
  qed
qed

lemma chunks_cover:
  "concat (chunks rows) = rows
   \<and> (\<forall>c \<in> set (chunks rows). c \<noteq> [] \<and> int (length c) \<le> batchSize)"
proof
  show "concat (chunks rows) = rows"
    using windows_from_slices [of batchSize 0 rows] by (simp add: chunks_def batchSize_def)
  show "\<forall>c \<in> set (chunks rows). c \<noteq> [] \<and> int (length c) \<le> batchSize"
  proof
    fix c assume "c \<in> set (chunks rows)"
    then obtain a b where ab: "(a, b) \<in> set (windows_from 0 (int (length rows)) batchSize)"
      and c: "c = take (nat (b - a)) (drop (nat a) rows)"
      by (auto simp: chunks_def)
    from windows_from_bounds [OF ab]
    have "0 \<le> a" "a < b" "b \<le> int (length rows)" "b - a \<le> batchSize" by simp_all
    then show "c \<noteq> [] \<and> int (length c) \<le> batchSize"
      unfolding c by auto
  qed
qed

text \<open>
  C7. Over the storage in memory, with any faults to come: when the buckets have been
  populated (to \<open>b\<close>), \<^verbatim>\<open>bulkAssignRoles\<close> returns, and the statements it has added to
  the journal are the bulk inserts of the user windows, then of the team windows, then
  of the built-in windows, issued in this order one at a time up to and including the
  first that fails; its result is the error of that statement, or success when none
  fails. So all statements are issued when the result is success, and when statement
  \<open>n\<close> fails nothing after it is issued: a failed insert of an earlier bucket
  prevents every write of the later buckets. The windows of a bucket, put end to end,
  are the bucket, and each holds between 1 and \<open>batchSize\<close> rows. With no assignments
  the call returns success in the state it was given, for every session. (The number
  of names is assumed to fit an \<^verbatim>\<open>int\<close> with room for one batch, as any slice in
  memory does.)
\<close>

theorem bulkAssignRoles_write_order:
  assumes len: "int (length (concat (map snd assignments))) + batchSize \<le> maxInt"
    and pop: "assign_orgs ut rolesMap (clock w) assignments no_assignments = Inr b"
    and ne: "assignments \<noteq> []"
  shows "(\<exists>w'. bulkAssignRoles ut (mem driver) rolesMap assignments w
                 = Some (snd (run_statements (bucket_statements b) (faults w)), w')
            \<and> journal w' = journal w @ fst (run_statements (bucket_statements b) (faults w)))
       \<and> (snd (run_statements (bucket_statements b) (faults w)) = None
            \<longrightarrow> fst (run_statements (bucket_statements b) (faults w)) = bucket_statements b)
       \<and> (\<forall>err. snd (run_statements (bucket_statements b) (faults w)) = Some err
            \<longrightarrow> (\<exists>n < length (bucket_statements b).
                   fst (run_statements (bucket_statements b) (faults w))
                     = take (Suc n) (bucket_statements b)
                   \<and> n < length (faults w) \<and> faults w ! n = Some err
                   \<and> (\<forall>k < n. faults w ! k = None)))
       \<and> concat (chunks (userRoleAssignments b)) = userRoleAssignments b
       \<and> concat (chunks (teamRoleAssignments b)) = teamRoleAssignments b
       \<and> concat (chunks (builtInRoleAssignments b)) = builtInRoleAssignments b
       \<and> (\<forall>c \<in> set (chunks (userRoleAssignments b)). c \<noteq> [] \<and> int (length c) \<le> batchSize)
       \<and> (\<forall>c \<in> set (chunks (teamRoleAssignments b)). c \<noteq> [] \<and> int (length c) \<le> batchSize)
       \<and> (\<forall>c \<in> set (chunks (builtInRoleAssignments b)).
             c \<noteq> [] \<and> int (length c) \<le> batchSize)
       \<and> (\<forall>(sess :: 's Session) s. bulkAssignRoles ut sess rolesMap [] s = Some (None, s))"
proof -
  let ?U = "userRoleAssignments b" and ?T = "teamRoleAssignments b"
    and ?B = "builtInRoleAssignments b"
  let ?EU = "map InsertUserRoles (chunks ?U)" and ?ET = "map InsertTeamRoles (chunks ?T)"
    and ?EB = "map InsertBuiltinRoles (chunks ?B)"
  let ?fs = "faults w"
  define w0 where "w0 = w\<lparr>clock := clock w + 1\<rparr>"
  have w0: "faults w0 = ?fs" "journal w0 = journal w" by (simp_all add: w0_def)
  have now: "Now (mem driver) w = (clock w, w0)" by (simp add: mem_def mem_Now_def w0_def)
  from assign_orgs_lengths [OF pop] len
  have lU: "int (length ?U) + batchSize \<le> maxInt" and lT: "int (length ?T) + batchSize \<le> maxInt"
    and lB: "int (length ?B) + batchSize \<le> maxInt"
    by (simp_all add: no_assignments_def)
  have E: "bucket_statements b = ?EU @ ?ET @ ?EB" by (simp add: bucket_statements_def)
  obtain i1 r1 where s1: "run_statements ?EU ?fs = (i1, r1)" by (cases "run_statements ?EU ?fs")
  from one_bucket [of mem_insert_user_roles InsertUserRoles ?U w0,
         OF mem_insert_user_roles_fault lU] s1 w0
  obtain w1 where b1: "batch (int (length ?U)) batchSize
                         (insert_window mem_insert_user_roles ?U) w0 = Some (r1, w1)"
    and j1: "journal w1 = journal w @ i1"
    and f1: "r1 = None \<longrightarrow> faults w1 = drop (length ?EU) ?fs"
    by auto
  have sel: "insert_user_roles (mem driver) = mem_insert_user_roles"
    "insert_team_roles (mem driver) = mem_insert_team_roles"
    "insert_builtin_roles (mem driver) = mem_insert_builtin_roles"
    by (simp_all add: mem_def)
  have start: "bulkAssignRoles ut (mem driver) rolesMap assignments w
      = (case batch (int (length ?U)) batchSize (insert_window mem_insert_user_roles ?U) w0 of
           None \<Rightarrow> None
         | Some (Some err, s1) \<Rightarrow> Some (Some err, s1)
         | Some (None, s1) \<Rightarrow>
             (case batch (int (length ?T)) batchSize (insert_window mem_insert_team_roles ?T) s1 of
                None \<Rightarrow> None
              | Some (Some err, s2) \<Rightarrow> Some (Some err, s2)
              | Some (None, s2) \<Rightarrow>
                  batch (int (length ?B)) batchSize (insert_window mem_insert_builtin_roles ?B) s2))"
    unfolding bulkAssignRoles_def sel using ne pop by (simp add: now)
  have main: "\<exists>w'. bulkAssignRoles ut (mem driver) rolesMap assignments w
                 = Some (snd (run_statements (bucket_statements b) ?fs), w')
            \<and> journal w' = journal w @ fst (run_statements (bucket_statements b) ?fs)"
  proof (cases r1)
    case (Some e)
    with s1 have "run_statements (bucket_statements b) ?fs = (i1, Some e)"
      unfolding E by (simp add: run_statements_append)
    with Some b1 j1 start show ?thesis by simp
  next
    case None
    with f1 have f1': "faults w1 = drop (length ?EU) ?fs" by simp
    obtain i2 r2 where s2: "run_statements ?ET (faults w1) = (i2, r2)"
      by (cases "run_statements ?ET (faults w1)")
    from one_bucket [of mem_insert_team_roles InsertTeamRoles ?T w1,
           OF mem_insert_team_roles_fault lT] s2
    obtain w2 where b2: "batch (int (length ?T)) batchSize
                           (insert_window mem_insert_team_roles ?T) w1 = Some (r2, w2)"
      and j2: "journal w2 = journal w1 @ i2"
      and f2: "r2 = None \<longrightarrow> faults w2 = drop (length ?ET) (faults w1)"
      by auto
    show ?thesis
    proof (cases r2)
      case (Some e)
      with s1 s2 None f1' have "run_statements (bucket_statements b) ?fs = (i1 @ i2, Some e)"
        unfolding E by (simp add: run_statements_append)
      with Some None b1 b2 j1 j2 start show ?thesis by simp
    next
      case n2: None
      with f2 have f2': "faults w2 = drop (length ?ET) (faults w1)" by simp
      obtain i3 r3 where s3: "run_statements ?EB (faults w2) = (i3, r3)"
        by (cases "run_statements ?EB (faults w2)")
      from one_bucket [of mem_insert_builtin_roles InsertBuiltinRoles ?B w2,
             OF mem_insert_builtin_roles_fault lB] s3
      obtain w3 where b3: "batch (int (length ?B)) batchSize
                             (insert_window mem_insert_builtin_roles ?B) w2 = Some (r3, w3)"
        and j3: "journal w3 = journal w2 @ i3"
        by auto
      from s1 s2 s3 None n2 f1' f2'
      have "run_statements (bucket_statements b) ?fs = (i1 @ i2 @ i3, r3)"
        unfolding E by (simp add: run_statements_append)
      with None n2 b1 b2 b3 j1 j2 j3 start show ?thesis by simp
    qed
  qed
  have all: "snd (run_statements (bucket_statements b) ?fs) = None
            \<longrightarrow> fst (run_statements (bucket_statements b) ?fs) = bucket_statements b"
    using run_statements_all by blast
  have stop: "\<forall>err. snd (run_statements (bucket_statements b) ?fs) = Some err
            \<longrightarrow> (\<exists>n < length (bucket_statements b).
                   fst (run_statements (bucket_statements b) ?fs)
                     = take (Suc n) (bucket_statements b)
                   \<and> n < length ?fs \<and> ?fs ! n = Some err
                   \<and> (\<forall>k < n. ?fs ! k = None))"
    using run_statements_stop by blast
  have empty: "\<forall>(sess :: 's Session) s. bulkAssignRoles ut sess rolesMap [] s = Some (None, s)"
    by (simp add: bulkAssignRoles_def)
  from main all stop empty chunks_cover [of ?U] chunks_cover [of ?T] chunks_cover [of ?B]
  show ?thesis by (intro conjI) simp_all
qed

theorem bulkAssignRoles_write_order_witness:
  "\<exists>w'. bulkAssignRoles no_unicode (mem ''sqlite3'') (index_of [role_42, role_t7, role_editor]) three_names flaky
           = Some (Some (StorageError ''connection lost''), w')
        \<and> journal w'
            = [InsertUserRoles [\<lparr>u_OrgID = 1, u_RoleID = 11, UserID = 42, u_Created = 100\<rparr>],
               InsertTeamRoles [\<lparr>t_OrgID = 1, t_RoleID = 12, TeamID = 7, t_Created = 100\<rparr>]]"
proof -
  let ?rm = "index_of [role_42, role_t7, role_editor]"
  let ?b = "\<lparr>userRoleAssignments = [\<lparr>u_OrgID = 1, u_RoleID = 11, UserID = 42, u_Created = 100\<rparr>],
             teamRoleAssignments = [\<lparr>t_OrgID = 1, t_RoleID = 12, TeamID = 7, t_Created = 100\<rparr>],
             builtInRoleAssignments =
               [\<lparr>b_RoleID = 13, b_OrgID = 1, b_Role = ''Editor'', b_Updated = 100,
                 b_Created = 100\<rparr>]\<rparr>"
  have len: "int (length (concat (map snd three_names))) + batchSize \<le> maxInt"
    by (simp add: three_names_def batchSize_def maxInt_def)
  have pop: "assign_orgs no_unicode ?rm (clock flaky) three_names no_assignments = Inr ?b"
    by code_simp
  have ne: "three_names \<noteq> []"
    by (simp add: three_names_def)
  have run: "run_statements (bucket_statements ?b) (faults flaky)
      = ([InsertUserRoles [\<lparr>u_OrgID = 1, u_RoleID = 11, UserID = 42, u_Created = 100\<rparr>],
          InsertTeamRoles [\<lparr>t_OrgID = 1, t_RoleID = 12, TeamID = 7, t_Created = 100\<rparr>]],
         Some (StorageError ''connection lost''))"
    by code_simp
  have j: "journal flaky = []"
    by (simp add: flaky_def world0_def)
  from bulkAssignRoles_write_order [OF len pop ne, of "''sqlite3''", THEN conjunct1]
  show ?thesis unfolding run j by simp
qed

section \<open>Role creation over the storage in memory\<close>

lemma mem_GenerateShortUID_keeps:
  "mem_GenerateShortUID w = (u, w1)
     \<Longrightarrow> role_table w1 = role_table w \<and> next_id w1 = next_id w
       \<and> set (uid_source w1) \<subseteq> set (uid_source w)
       \<and> (u \<in> set (uid_source w) \<or> u = ''uid'')"
  by (auto simp: mem_GenerateShortUID_def split: list.splits)

lemma mem_role_uid_exists_keeps:
  "mem_role_uid_exists orgID uid w = (Inr found, w1)
     \<Longrightarrow> role_table w1 = role_table w \<and> next_id w1 = next_id w
       \<and> uid_source w1 = uid_source w
       \<and> found = (\<exists>r \<in> set (role_table w). OrgID r = orgID \<and> UID r = uid)"
  by (auto simp: mem_role_uid_exists_def issue_def split: list.splits option.splits)

lemma generateNewRoleUID_loop_mem:
  "generateNewRoleUID_loop (mem driver) orgID left w = (Inr uid, w1)
     \<Longrightarrow> role_table w1 = role_table w \<and> next_id w1 = next_id w
       \<and> set (uid_source w1) \<subseteq> set (uid_source w)
       \<and> (uid \<in> set (uid_source w) \<or> uid = ''uid'')
       \<and> \<not> (\<exists>r \<in> set (role_table w). OrgID r = orgID \<and> UID r = uid)"
proof (induction left arbitrary: w)
  case 0
  then show ?case by simp
next
  case (Suc left)
  obtain u wa where g: "mem_GenerateShortUID w = (u, wa)" by (cases "mem_GenerateShortUID w")
  obtain res wb where e: "mem_role_uid_exists orgID u wa = (res, wb)"
    by (cases "mem_role_uid_exists orgID u wa")
  have sel: "GenerateShortUID (mem driver) = mem_GenerateShortUID"
    "role_uid_exists (mem driver) = mem_role_uid_exists"
    by (simp_all add: mem_def)
  from Suc.prems g e obtain found where res: "res = Inr found"
    by (cases res) (simp_all add: sel)
  note ga = mem_GenerateShortUID_keeps [OF g]
  note ea = mem_role_uid_exists_keeps [OF e [unfolded res]]
  show ?case
  proof (cases found)
    case False
    with Suc.prems g e res have "uid = u" "w1 = wb" by (simp_all add: sel)
    with ga ea False show ?thesis by auto
  next
    case True
    with Suc.prems g e res
    have "generateNewRoleUID_loop (mem driver) orgID left wb = (Inr uid, w1)"
      by (simp add: sel)
    from Suc.IH [OF this] ga ea show ?thesis by auto
  qed
qed

lemma generateNewRoleUID_mem:
  "generateNewRoleUID (mem driver) orgID w = (Inr uid, w1)
     \<Longrightarrow> role_table w1 = role_table w \<and> next_id w1 = next_id w
       \<and> (uids_usable w \<longrightarrow> uids_usable w1 \<and> uid \<noteq> [])
       \<and> \<not> (\<exists>r \<in> set (role_table w). OrgID r = orgID \<and> UID r = uid)"
  unfolding generateNewRoleUID_def uids_usable_def
  by (drule generateNewRoleUID_loop_mem) auto

lemma createRoles_args_mem:
  "createRoles_args (mem driver) ts roles w = (Inr rows, w1)
     \<Longrightarrow> role_table w1 = role_table w \<and> next_id w1 = next_id w
       \<and> (uids_usable w \<longrightarrow> uids_usable w1 \<and> (\<forall>r \<in> set rows. UID r \<noteq> []))
       \<and> map (\<lambda>r. (OrgID r, Name r)) rows = map (\<lambda>r. (OrgID r, Name r)) roles
       \<and> (\<forall>r \<in> set rows. \<not> (\<exists>t \<in> set (role_table w). OrgID t = OrgID r \<and> UID t = UID r))
       \<and> (\<forall>r \<in> set rows. Version r = 1 \<and> Created r = ts \<and> Updated r = ts)"
proof (induction roles arbitrary: w rows w1)
  case Nil
  then show ?case by simp
next
  case (Cons r rs)
  obtain res wa where g: "generateNewRoleUID (mem driver) (OrgID r) w = (res, wa)"
    by (cases "generateNewRoleUID (mem driver) (OrgID r) w")
  with Cons.prems obtain uid where res: "res = Inr uid" by (cases res) simp_all
  obtain res' wb where c: "createRoles_args (mem driver) ts rs wa = (res', wb)"
    by (cases "createRoles_args (mem driver) ts rs wa")
  with Cons.prems g res obtain rows' where res': "res' = Inr rows'" by (cases res') simp_all
  from Cons.prems g res c res'
  have rows: "rows = \<lparr>ID = 0, OrgID = OrgID r, Version = 1, UID = uid, Name = Name r,
                       Updated = ts, Created = ts\<rparr> # rows'" and w1: "w1 = wb"
    by simp_all
  note ga = generateNewRoleUID_mem [OF g [unfolded res]]
  note ih = Cons.IH [OF c [unfolded res']]
  from ga ih show ?case unfolding rows w1 by auto
qed

lemma createRolesMySQL_roles_mem:
  "createRolesMySQL_roles (mem driver) ts roles w = (Inr rows, w1)
     \<Longrightarrow> role_table w1 = role_table w \<and> next_id w1 = next_id w
       \<and> (uids_usable w \<longrightarrow> uids_usable w1 \<and> (\<forall>r \<in> set rows. UID r \<noteq> []))
       \<and> map (\<lambda>r. (OrgID r, Name r)) rows = map (\<lambda>r. (OrgID r, Name r)) roles
       \<and> (\<forall>r \<in> set rows. \<not> (\<exists>t \<in> set (role_table w). OrgID t = OrgID r \<and> UID t = UID r))
       \<and> map Version rows = map Version roles
       \<and> (\<forall>r \<in> set rows. Created r = ts \<and> Updated r = ts)"
proof (induction roles arbitrary: w rows w1)
  case Nil
  then show ?case by simp
next
  case (Cons r rs)
  obtain res wa where g: "generateNewRoleUID (mem driver) (OrgID r) w = (res, wa)"
    by (cases "generateNewRoleUID (mem driver) (OrgID r) w")
  with Cons.prems obtain uid where res: "res = Inr uid" by (cases res) simp_all
  obtain res' wb where c: "createRolesMySQL_roles (mem driver) ts rs wa = (res', wb)"
    by (cases "createRolesMySQL_roles (mem driver) ts rs wa")
  with Cons.prems g res obtain rows' where res': "res' = Inr rows'" by (cases res') simp_all
  from Cons.prems g res c res'
  have rows: "rows = r\<lparr>UID := uid, Created := ts, Updated := ts\<rparr> # rows'" and w1: "w1 = wb"
    by simp_all
  note ga = generateNewRoleUID_mem [OF g [unfolded res]]
  note ih = Cons.IH [OF c [unfolded res']]
  from ga ih show ?case unfolding rows w1 by auto
qed

lemma number_rows_keys:
  "map (\<lambda>r. (OrgID r, UID r)) (number_rows n rows) = map (\<lambda>r. (OrgID r, UID r)) rows"
  "map (\<lambda>r. (OrgID r, Name r)) (number_rows n rows) = map (\<lambda>r. (OrgID r, Name r)) rows"
  "map UID (number_rows n rows) = map UID rows"
  "length (number_rows n rows) = length rows"
  by (induction rows arbitrary: n) simp_all

lemma store_roles_result:
  "store_roles rows w = Inr w'
     \<Longrightarrow> role_table w' = role_table w @ number_rows (next_id w) rows
       \<and> uid_source w' = uid_source w
       \<and> distinct (map (\<lambda>r. (OrgID r, UID r)) (role_table w'))"
  by (auto simp: store_roles_def number_rows_keys split: if_splits)

lemma mem_insert_roles_returning_result:
  assumes "mem_insert_roles_returning rows w = (Inr created, w')"
  shows "role_table w' = role_table w @ number_rows (next_id w) rows"
    and "uid_source w' = uid_source w"
    and "distinct (map (\<lambda>r. (OrgID r, UID r)) (role_table w'))"
    and "created = map (\<lambda>r. zero_Role\<lparr>ID := ID r, OrgID := OrgID r, Name := Name r\<rparr>)
                      (number_rows (next_id w) rows)"
  using assms unfolding mem_insert_roles_returning_def issue_def
  by (auto split: option.splits list.splits sum.splits dest!: store_roles_result)

lemma mem_insert_roles_result:
  assumes "mem_insert_roles rows w = (None, w')"
  shows "role_table w' = role_table w @ number_rows (next_id w) rows"
    and "uid_source w' = uid_source w"
    and "distinct (map (\<lambda>r. (OrgID r, UID r)) (role_table w'))"
  using assms unfolding mem_insert_roles_def issue_def
  by (auto split: option.splits list.splits sum.splits dest!: store_roles_result)

lemma mem_find_roles_by_uid_result:
  assumes "mem_find_roles_by_uid pairs w = (Inr created, w')"
  shows "role_table w' = role_table w" and "uid_source w' = uid_source w"
    and "created = filter (\<lambda>r. (OrgID r, UID r) \<in> set pairs) (role_table w)"
  using assms unfolding mem_find_roles_by_uid_def issue_def
  by (auto split: option.splits list.splits)

lemma filter_new_rows:
  assumes old: "\<forall>r \<in> set rows. \<not> (\<exists>t \<in> set old. OrgID t = OrgID r \<and> UID t = UID r)"
    and new: "map (\<lambda>r. (OrgID r, UID r)) new = map (\<lambda>r. (OrgID r, UID r)) rows"
  shows "filter (\<lambda>r. (OrgID r, UID r) \<in> set (map (\<lambda>r. (OrgID r, UID r)) rows)) (old @ new) = new"
proof -
  let ?P = "\<lambda>r. (OrgID r, UID r) \<in> set (map (\<lambda>r. (OrgID r, UID r)) rows)"
  have "filter ?P old = []"
    using old by (auto simp: filter_empty_conv)
  moreover have "\<forall>r \<in> set new. ?P r"
  proof
    fix r assume "r \<in> set new"
    then have "(OrgID r, UID r) \<in> set (map (\<lambda>r. (OrgID r, UID r)) new)" by force
    then show "?P r" unfolding new .
  qed
  then have "filter ?P new = new" by (simp add: filter_id_conv)
  ultimately show ?thesis by simp
qed

lemma uids_usable_cong:
  "uid_source w' = uid_source w \<Longrightarrow> uids_usable w' = uids_usable w"
  by (simp add: uids_usable_def)

lemma returned_columns_keys:
  "map (\<lambda>r. (OrgID r, Name r)) (map returned_columns rows) = map (\<lambda>r. (OrgID r, Name r)) rows"
  "map UID (map returned_columns rows) = map (\<lambda>r. []) rows"
  "map ID (map returned_columns rows) = map ID rows"
  by (simp_all add: returned_columns_def zero_Role_def comp_def)

lemma createRoles_mem:
  assumes run: "createRoles (mem driver) roles a b w = (Inr created, w')"
  shows "\<exists>news. role_table w' = role_table w @ news
           \<and> created = map returned_columns news
           \<and> map (\<lambda>r. (OrgID r, Name r)) news = map (\<lambda>r. (OrgID r, Name r)) roles
           \<and> (uids_usable w \<longrightarrow> (\<forall>r \<in> set news. UID r \<noteq> []))"
    and "distinct (map (\<lambda>r. (OrgID r, UID r)) (role_table w'))"
    and "uids_usable w \<longrightarrow> uids_usable w'"
proof -
  define w0 where "w0 = w\<lparr>clock := clock w + 1\<rparr>"
  have now: "Now (mem driver) w = (clock w, w0)" by (simp add: mem_def mem_Now_def w0_def)
  have sel: "insert_roles_returning (mem driver) = mem_insert_roles_returning"
    by (simp add: mem_def)
  obtain res w1 where args: "createRoles_args (mem driver) (clock w) roles w0 = (res, w1)"
    by (cases "createRoles_args (mem driver) (clock w) roles w0")
  with run now obtain rows where res: "res = Inr rows"
    by (cases res) (simp_all add: createRoles_def)
  from run now args res have ins: "mem_insert_roles_returning rows w1 = (Inr created, w')"
    by (simp add: createRoles_def sel)
  note a = createRoles_args_mem [OF args [unfolded res]]
  note i = mem_insert_roles_returning_result [OF ins]
  let ?new = "number_rows (next_id w1) rows"
  have t0: "role_table w0 = role_table w" by (simp add: w0_def)
  have u0: "uids_usable w0 = uids_usable w" by (simp add: uids_usable_def w0_def)
  from a t0 have t1: "role_table w1 = role_table w" by simp
  have 1: "role_table w' = role_table w @ ?new" unfolding i(1) t1 ..
  have 2: "created = map returned_columns ?new"
    unfolding i(4) by (simp add: returned_columns_def)
  have 3: "map (\<lambda>r. (OrgID r, Name r)) ?new = map (\<lambda>r. (OrgID r, Name r)) roles"
    using a by (simp only: number_rows_keys(2))
  have 4: "uids_usable w \<longrightarrow> (\<forall>r \<in> set ?new. UID r \<noteq> [])"
  proof
    assume "uids_usable w"
    with a u0 have ne: "\<forall>r \<in> set rows. UID r \<noteq> []" by simp
    have "set (map UID ?new) = set (map UID rows)"
      by (simp only: number_rows_keys(3))
    with ne show "\<forall>r \<in> set ?new. UID r \<noteq> []"
      by (metis (no_types, lifting) image_iff list.set_map)
  qed
  from 1 2 3 4
  show "\<exists>news. role_table w' = role_table w @ news
           \<and> created = map returned_columns news
           \<and> map (\<lambda>r. (OrgID r, Name r)) news = map (\<lambda>r. (OrgID r, Name r)) roles
           \<and> (uids_usable w \<longrightarrow> (\<forall>r \<in> set news. UID r \<noteq> []))"
    by (intro exI [of _ ?new] conjI)
  show "distinct (map (\<lambda>r. (OrgID r, UID r)) (role_table w'))" by (rule i(3))
  from a u0 i(2) show "uids_usable w \<longrightarrow> uids_usable w'"
    by (simp add: uids_usable_def)
qed

lemma createRolesMySQL_mem:
  assumes run: "createRolesMySQL (mem driver) roles a b w = (Inr created, w')"
  shows "map (\<lambda>r. (OrgID r, Name r)) created = map (\<lambda>r. (OrgID r, Name r)) roles
       \<and> role_table w' = role_table w @ created
       \<and> distinct (map (\<lambda>r. (OrgID r, UID r)) (role_table w'))
       \<and> (uids_usable w \<longrightarrow> uids_usable w' \<and> (\<forall>r \<in> set created. UID r \<noteq> []))"
proof -
  define w0 where "w0 = w\<lparr>clock := clock w + 1\<rparr>"
  have now: "Now (mem driver) w = (clock w, w0)" by (simp add: mem_def mem_Now_def w0_def)
  have sel: "insert_roles (mem driver) = mem_insert_roles"
    "find_roles_by_uid (mem driver) = mem_find_roles_by_uid"
    by (simp_all add: mem_def)
  obtain res w1 where args: "createRolesMySQL_roles (mem driver) (clock w) roles w0 = (res, w1)"
    by (cases "createRolesMySQL_roles (mem driver) (clock w) roles w0")
  with run now obtain rows where res: "res = Inr rows"
    by (cases res) (simp_all add: createRolesMySQL_def)
  obtain e w2 where ins: "mem_insert_roles rows w1 = (e, w2)"
    by (cases "mem_insert_roles rows w1")
  with run now args res have e: "e = None"
    by (cases e) (simp_all add: createRolesMySQL_def sel)
  from run now args res ins e
  have fnd: "mem_find_roles_by_uid (map (\<lambda>r. (OrgID r, UID r)) rows) w2 = (Inr created, w')"
    by (simp add: createRolesMySQL_def sel)
  note a = createRolesMySQL_roles_mem [OF args [unfolded res]]
  note i = mem_insert_roles_result [OF ins [unfolded e]]
  note f = mem_find_roles_by_uid_result [OF fnd]
  let ?new = "number_rows (next_id w1) rows"
  have t0: "role_table w0 = role_table w" by (simp add: w0_def)
  have u0: "uids_usable w0 = uids_usable w" by (simp add: uids_usable_def w0_def)
  from a t0 have old: "\<forall>r \<in> set rows. \<not> (\<exists>t \<in> set (role_table w). OrgID t = OrgID r \<and> UID t = UID r)"
    by simp
  from a t0 have t1: "role_table w1 = role_table w" by simp
  have t2: "role_table w2 = role_table w @ ?new" unfolding i(1) t1 ..
  have "created = filter (\<lambda>r. (OrgID r, UID r) \<in> set (map (\<lambda>r. (OrgID r, UID r)) rows))
                                  (role_table w @ ?new)"
    unfolding f(3) t2 ..
  also have "\<dots> = ?new"
    by (rule filter_new_rows [OF old number_rows_keys(1)])
  finally have c: "created = ?new" .
  have 1: "map (\<lambda>r. (OrgID r, Name r)) created = map (\<lambda>r. (OrgID r, Name r)) roles"
    using a number_rows_keys(2) [of "next_id w1" rows] unfolding c by simp
  have 2: "role_table w' = role_table w @ created" unfolding f(1) t2 c ..
  have 3: "distinct (map (\<lambda>r. (OrgID r, UID r)) (role_table w'))" unfolding f(1) by (rule i(3))
  have 4: "uids_usable w \<longrightarrow> uids_usable w' \<and> (\<forall>r \<in> set created. UID r \<noteq> [])"
  proof
    assume "uids_usable w"
    with a u0 have u1: "uids_usable w1" and ne: "\<forall>r \<in> set rows. UID r \<noteq> []" by simp_all
    from f(2) i(2) have "uid_source w' = uid_source w1" by simp
    with u1 have "uids_usable w'" by (simp add: uids_usable_def)
    moreover have "set (map UID created) = set (map UID rows)"
      unfolding c by (simp only: number_rows_keys(3))
    with ne have "\<forall>r \<in> set created. UID r \<noteq> []"
      by (metis (no_types, lifting) image_iff list.set_map)
    ultimately show "uids_usable w' \<and> (\<forall>r \<in> set created. UID r \<noteq> [])" by simp
  qed
  from 1 2 3 4 show ?thesis by (intro conjI)
qed

lemma bulkCreateRoles_each_mem:
  assumes run: "bulkCreateRoles_each (mem driver) allRoles a b (acc, w) = (None, (acc', w'))"
    and ab: "0 \<le> a" "a \<le> b" "b \<le> int (length allRoles)"
    and ok: "created_ok driver table0 acc w"
  shows "created_ok driver table0 acc' w'"
    and "map (\<lambda>r. (OrgID r, Name r)) acc'
           = map (\<lambda>r. (OrgID r, Name r)) acc
             @ map (\<lambda>r. (OrgID r, Name r)) (take (nat (b - a)) (drop (nat a) allRoles))"
proof -
  let ?roles = "take (nat (b - a)) (drop (nat a) allRoles)"
  have sl: "go_slice allRoles a b = Inr ?roles" by (rule go_slice_in_bounds [OF ab])
  have d: "DriverName (mem driver) = driver" by (simp add: mem_def)
  from ok obtain news where t: "role_table w = table0 @ news"
    and acc: "acc = (if driver = MySQL then news else map returned_columns news)"
    and ne: "\<forall>r \<in> set news. UID r \<noteq> []"
    and us: "uids_usable w"
    unfolding created_ok_def by blast
  show "created_ok driver table0 acc' w'"
    and "map (\<lambda>r. (OrgID r, Name r)) acc'
           = map (\<lambda>r. (OrgID r, Name r)) acc @ map (\<lambda>r. (OrgID r, Name r)) ?roles"
  proof (atomize (full), cases "driver = MySQL")
    case True
    obtain res w1 where c: "createRolesMySQL (mem driver) ?roles a b w = (res, w1)"
      by (cases "createRolesMySQL (mem driver) ?roles a b w")
    with run sl d True obtain created where res: "res = Inr created"
      by (cases res) (simp_all add: bulkCreateRoles_each_def)
    from run sl d True c res have acc': "acc' = acc @ created" and w': "w' = w1"
      by (simp_all add: bulkCreateRoles_each_def)
    note m = createRolesMySQL_mem [OF c [unfolded res]]
    from m have "role_table w1 = role_table w @ created" by blast
    with t have t1: "role_table w1 = table0 @ (news @ created)" by simp
    from acc True have a1: "acc @ created = (if driver = MySQL then news @ created
                                             else map returned_columns (news @ created))"
      by simp
    from m us have "\<forall>r \<in> set created. UID r \<noteq> []" by blast
    with ne have n1: "\<forall>r \<in> set (news @ created). UID r \<noteq> []" by auto
    from m have d1: "distinct (map (\<lambda>r. (OrgID r, UID r)) (role_table w1))" by blast
    from m us have u1: "uids_usable w1" by blast
    from t1 a1 n1 d1 u1 have "created_ok driver table0 (acc @ created) w1"
      unfolding created_ok_def by (intro exI [of _ "news @ created"] conjI)
    moreover from m have "map (\<lambda>r. (OrgID r, Name r)) created
                            = map (\<lambda>r. (OrgID r, Name r)) ?roles" by blast
    then have "map (\<lambda>r. (OrgID r, Name r)) (acc @ created)
           = map (\<lambda>r. (OrgID r, Name r)) acc @ map (\<lambda>r. (OrgID r, Name r)) ?roles"
      by simp
    ultimately show "created_ok driver table0 acc' w'
      \<and> map (\<lambda>r. (OrgID r, Name r)) acc'
           = map (\<lambda>r. (OrgID r, Name r)) acc @ map (\<lambda>r. (OrgID r, Name r)) ?roles"
      unfolding acc' w' by (rule conjI)
  next
    case False
    obtain res w1 where c: "createRoles (mem driver) ?roles a b w = (res, w1)"
      by (cases "createRoles (mem driver) ?roles a b w")
    with run sl d False obtain created where res: "res = Inr created"
      by (cases res) (simp_all add: bulkCreateRoles_each_def)
    from run sl d False c res have acc': "acc' = acc @ created" and w': "w' = w1"
      by (simp_all add: bulkCreateRoles_each_def)
    note m = createRoles_mem [OF c [unfolded res]]
    from m(1) us obtain news' where t': "role_table w1 = role_table w @ news'"
      and c': "created = map returned_columns news'"
      and k': "map (\<lambda>r. (OrgID r, Name r)) news' = map (\<lambda>r. (OrgID r, Name r)) ?roles"
      and ne': "\<forall>r \<in> set news'. UID r \<noteq> []"
      by blast
    from t' t have t1: "role_table w1 = table0 @ (news @ news')" by simp
    from acc False c' have a1: "acc @ created = (if driver = MySQL then news @ news'
                                                 else map returned_columns (news @ news'))"
      by simp
    from ne ne' have n1: "\<forall>r \<in> set (news @ news'). UID r \<noteq> []" by auto
    note d1 = m(2)
    from m(3) us have u1: "uids_usable w1" by simp
    from t1 a1 n1 d1 u1 have "created_ok driver table0 (acc @ created) w1"
      unfolding created_ok_def by (intro exI [of _ "news @ news'"] conjI)
    moreover have "map (\<lambda>r. (OrgID r, Name r)) (acc @ created)
           = map (\<lambda>r. (OrgID r, Name r)) acc @ map (\<lambda>r. (OrgID r, Name r)) ?roles"
      unfolding c' map_append returned_columns_keys(1) k' ..
    ultimately show "created_ok driver table0 acc' w'
      \<and> map (\<lambda>r. (OrgID r, Name r)) acc'
           = map (\<lambda>r. (OrgID r, Name r)) acc @ map (\<lambda>r. (OrgID r, Name r)) ?roles"
      unfolding acc' w' by (rule conjI)
  qed
qed

lemma run_windows_create:
  assumes "run_windows (bulkCreateRoles_each (mem driver) allRoles) ws (acc, w) = (None, (acc', w'))"
    and "\<forall>(a, b) \<in> set ws. 0 \<le> a \<and> a \<le> b \<and> b \<le> int (length allRoles)"
    and "created_ok driver table0 acc w"
  shows "created_ok driver table0 acc' w'
       \<and> map (\<lambda>r. (OrgID r, Name r)) acc'
           = map (\<lambda>r. (OrgID r, Name r)) acc
             @ map (\<lambda>r. (OrgID r, Name r))
                 (concat (map (\<lambda>(a, b). take (nat (b - a)) (drop (nat a) allRoles)) ws))"
  using assms
proof (induction ws arbitrary: acc w)
  case Nil
  then show ?case by simp
next
  case (Cons p ws)
  obtain a b where p: "p = (a, b)" by (cases p)
  from Cons.prems(2) p have ab: "0 \<le> a" "a \<le> b" "b \<le> int (length allRoles)" by auto
  obtain e acc1 w1 where
    st: "bulkCreateRoles_each (mem driver) allRoles a b (acc, w) = (e, (acc1, w1))"
    by (cases "bulkCreateRoles_each (mem driver) allRoles a b (acc, w)") auto
  with Cons.prems(1) p have e: "e = None" by (cases e) simp_all
  from Cons.prems(1) p st e
  have rest: "run_windows (bulkCreateRoles_each (mem driver) allRoles) ws (acc1, w1)
                = (None, (acc', w'))" by simp
  note s = bulkCreateRoles_each_mem [OF st [unfolded e] ab Cons.prems(3)]
  from Cons.prems(2) have "\<forall>(a, b) \<in> set ws. 0 \<le> a \<and> a \<le> b \<and> b \<le> int (length allRoles)"
    by simp
  from Cons.IH [OF rest this s(1)] s(2) p show ?case by simp
qed

text \<open>
  C2 (as amended). Over the storage in memory, whose role table keeps \<open>(org_id, uid)\<close>
  unique, with a generator of non-empty UIDs and any faults to come, for a list of N
  role specifications (N and one batch fitting an \<^verbatim>\<open>int\<close>): \<^verbatim>\<open>bulkCreateRoles\<close> returns;
  and whenever it returns without error, under either strategy it has appended to the
  role table exactly N rows, whose set of \<open>(OrgID, Name)\<close> pairs is the input's, each
  with a non-empty generated UID, the role table still keeping \<open>(org_id, uid)\<close> unique;
  and it returns exactly N roles whose set of \<open>(OrgID, Name)\<close> pairs is the input's.
  Under the two-step strategy (the dialect is MySQL) the roles returned are the rows
  stored: every returned role has a non-empty UID and no two returned roles share
  \<open>(OrgID, UID)\<close>. Under the combining strategy the roles returned carry only the
  columns the statement returns of the rows stored (\<open>id\<close>, \<open>org_id\<close>, \<open>name\<close>): their UID
  is empty.
\<close>

theorem bulkCreateRoles_result:
  assumes len: "int (length allRoles) + batchSize \<le> maxInt"
    and inv: "distinct (map (\<lambda>r. (OrgID r, UID r)) (role_table w))"
    and gen: "\<forall>u \<in> set (uid_source w). u \<noteq> []"
  shows "(\<exists>res. bulkCreateRoles (mem driver) allRoles w = Some res)
       \<and> (\<forall>created w'.
             bulkCreateRoles (mem driver) allRoles w = Some ((created, None), w') \<longrightarrow>
               length created = length allRoles
             \<and> set (map (\<lambda>r. (OrgID r, Name r)) created)
                 = set (map (\<lambda>r. (OrgID r, Name r)) allRoles)
             \<and> (driver = MySQL \<longrightarrow>
                  (\<forall>r \<in> set created. UID r \<noteq> [])
                  \<and> distinct (map (\<lambda>r. (OrgID r, UID r)) created))
             \<and> (driver \<noteq> MySQL \<longrightarrow> (\<forall>r \<in> set created. UID r = []))
             \<and> (\<exists>news. role_table w' = role_table w @ news
                  \<and> created = (if driver = MySQL then news else map returned_columns news)
                  \<and> length news = length allRoles
                  \<and> set (map (\<lambda>r. (OrgID r, Name r)) news)
                      = set (map (\<lambda>r. (OrgID r, Name r)) allRoles)
                  \<and> (\<forall>r \<in> set news. UID r \<noteq> [])
                  \<and> distinct (map (\<lambda>r. (OrgID r, UID r)) (role_table w'))))"
proof (cases "allRoles = []")
  case True
  then show ?thesis using inv by (simp add: bulkCreateRoles_def)
next
  case False
  let ?ws = "windows_from 0 (int (length allRoles)) batchSize"
  let ?each = "bulkCreateRoles_each (mem driver) allRoles"
  let ?key = "\<lambda>r. (OrgID r, UID r)"
  let ?pair = "\<lambda>r. (OrgID r, Name r)"
  have run: "batch (int (length allRoles)) batchSize ?each ([], w)
               = Some (run_windows ?each ?ws ([], w))"
    using len by (intro batch_run) (simp_all add: batchSize_def)
  obtain e acc w1 where rw: "run_windows ?each ?ws ([], w) = (e, (acc, w1))"
    by (cases "run_windows ?each ?ws ([], w)") auto
  have res: "bulkCreateRoles (mem driver) allRoles w = Some ((acc, e), w1)"
    using False by (simp add: bulkCreateRoles_def run rw)
  have "length created = length allRoles
      \<and> set (map ?pair created) = set (map ?pair allRoles)
      \<and> (driver = MySQL \<longrightarrow>
           (\<forall>r \<in> set created. UID r \<noteq> []) \<and> distinct (map ?key created))
      \<and> (driver \<noteq> MySQL \<longrightarrow> (\<forall>r \<in> set created. UID r = []))
      \<and> (\<exists>news. role_table w' = role_table w @ news
           \<and> created = (if driver = MySQL then news else map returned_columns news)
           \<and> length news = length allRoles
           \<and> set (map ?pair news) = set (map ?pair allRoles)
           \<and> (\<forall>r \<in> set news. UID r \<noteq> [])
           \<and> distinct (map ?key (role_table w')))"
    if ok: "bulkCreateRoles (mem driver) allRoles w = Some ((created, None), w')" for created w'
  proof -
    from ok res have e: "e = None" and acc: "acc = created" and w1: "w1 = w'" by simp_all
    have bounds: "\<forall>(a, b) \<in> set ?ws. 0 \<le> a \<and> a \<le> b \<and> b \<le> int (length allRoles)"
      using windows_from_bounds [of _ _ 0 "int (length allRoles)" batchSize] by fastforce
    have start: "created_ok driver (role_table w) [] w"
      using inv gen by (simp add: created_ok_def uids_usable_def)
    note c = run_windows_create [OF rw [unfolded e acc w1] bounds start]
    have sl: "concat (map (\<lambda>(a, b). take (nat (b - a)) (drop (nat a) allRoles)) ?ws) = allRoles"
      using windows_from_slices [of batchSize 0 allRoles] by (simp add: batchSize_def)
    from c have m: "map ?pair created = map ?pair allRoles"
      unfolding sl by simp
    from m have 1: "length created = length allRoles" by (rule map_eq_imp_length_eq)
    from m have 2: "set (map ?pair created) = set (map ?pair allRoles)" by simp
    from c have "created_ok driver (role_table w) created w'" by simp
    then obtain news where t: "role_table w' = role_table w @ news"
      and cr: "created = (if driver = MySQL then news else map returned_columns news)"
      and ne: "\<forall>r \<in> set news. UID r \<noteq> []"
      and di: "distinct (map ?key (role_table w'))"
      unfolding created_ok_def by blast
    have mn: "map ?pair news = map ?pair created"
    proof (cases "driver = MySQL")
      case True
      with cr show ?thesis by simp
    next
      case False
      with cr have "created = map returned_columns news" by simp
      then show ?thesis by (simp only: returned_columns_keys(1))
    qed
    from mn m have mm: "map ?pair news = map ?pair allRoles" by (rule trans)
    from mm have 5: "length news = length allRoles" by (rule map_eq_imp_length_eq)
    have 6: "set (map ?pair news) = set (map ?pair allRoles)" unfolding mm ..
    have 3: "driver = MySQL \<longrightarrow>
           (\<forall>r \<in> set created. UID r \<noteq> []) \<and> distinct (map ?key created)"
      using cr ne di t by simp
    have 4: "driver \<noteq> MySQL \<longrightarrow> (\<forall>r \<in> set created. UID r = [])"
      using cr by (auto simp: returned_columns_def zero_Role_def)
    from t cr 5 6 ne di
    have 7: "\<exists>news. role_table w' = role_table w @ news
           \<and> created = (if driver = MySQL then news else map returned_columns news)
           \<and> length news = length allRoles
           \<and> set (map ?pair news) = set (map ?pair allRoles)
           \<and> (\<forall>r \<in> set news. UID r \<noteq> [])
           \<and> distinct (map ?key (role_table w'))"
      by (intro exI [of _ news] conjI)
    from 1 2 3 4 7 show ?thesis by (intro conjI)
  qed
  with res show ?thesis by blast
qed

theorem bulkCreateRoles_result_witness:
  "map_option fst (bulkCreateRoles (mem MySQL) [role1, role2] fresh_uids)
     = Some ([\<lparr>ID = 1, OrgID = 1, Version = 0, UID = ''a'', Name = ''managed:users:1'',
                Updated = 100, Created = 100\<rparr>,
              \<lparr>ID = 2, OrgID = 1, Version = 0, UID = ''b'', Name = ''managed:teams:2'',
                Updated = 100, Created = 100\<rparr>], None)
   \<and> distinct (map (\<lambda>r. (OrgID r, UID r))
        [\<lparr>ID = 1, OrgID = 1, Version = 0, UID = ''a'', Name = ''managed:users:1'',
           Updated = 100, Created = 100\<rparr>,
         \<lparr>ID = 2, OrgID = 1, Version = 0, UID = ''b'', Name = ''managed:teams:2'',
           Updated = 100, Created = 100\<rparr>])
   \<and> map_option (\<lambda>r. (fst (fst r), role_table (snd r)))
        (bulkCreateRoles (mem ''postgres'') [role1, role2] fresh_uids)
     = Some ([\<lparr>ID = 1, OrgID = 1, Version = 0, UID = [], Name = ''managed:users:1'',
                Updated = 0, Created = 0\<rparr>,
              \<lparr>ID = 2, OrgID = 1, Version = 0, UID = [], Name = ''managed:teams:2'',
                Updated = 0, Created = 0\<rparr>],
             [\<lparr>ID = 1, OrgID = 1, Version = 1, UID = ''a'', Name = ''managed:users:1'',
                Updated = 100, Created = 100\<rparr>,
              \<lparr>ID = 2, OrgID = 1, Version = 1, UID = ''b'', Name = ''managed:teams:2'',
                Updated = 100, Created = 100\<rparr>])"
proof -
  let ?created = "[\<lparr>ID = 1, OrgID = 1, Version = 0, UID = ''a'', Name = ''managed:users:1'',
                     Updated = 100, Created = 100\<rparr>,
                   \<lparr>ID = 2, OrgID = 1, Version = 0, UID = ''b'', Name = ''managed:teams:2'',
                     Updated = 100, Created = 100\<rparr>]"
  have ev: "map_option fst (bulkCreateRoles (mem MySQL) [role1, role2] fresh_uids)
              = Some (?created, None)"
    by code_simp
  then obtain w' where run: "bulkCreateRoles (mem MySQL) [role1, role2] fresh_uids
                               = Some ((?created, None), w')"
    by auto
  have len: "int (length [role1, role2]) + batchSize \<le> maxInt"
    by (simp add: batchSize_def maxInt_def)
  have inv: "distinct (map (\<lambda>r. (OrgID r, UID r)) (role_table fresh_uids))"
    by (simp add: fresh_uids_def world0_def)
  have gen: "\<forall>u \<in> set (uid_source fresh_uids). u \<noteq> []"
    by (simp add: fresh_uids_def world0_def)
  from bulkCreateRoles_result [OF len inv gen, of MySQL, THEN conjunct2, rule_format, OF run]
  have di: "distinct (map (\<lambda>r. (OrgID r, UID r)) ?created)" by simp
  have pg: "map_option (\<lambda>r. (fst (fst r), role_table (snd r)))
        (bulkCreateRoles (mem ''postgres'') [role1, role2] fresh_uids)
     = Some ([\<lparr>ID = 1, OrgID = 1, Version = 0, UID = [], Name = ''managed:users:1'',
                Updated = 0, Created = 0\<rparr>,
              \<lparr>ID = 2, OrgID = 1, Version = 0, UID = [], Name = ''managed:teams:2'',
                Updated = 0, Created = 0\<rparr>],
             [\<lparr>ID = 1, OrgID = 1, Version = 1, UID = ''a'', Name = ''managed:users:1'',
                Updated = 100, Created = 100\<rparr>,
              \<lparr>ID = 2, OrgID = 1, Version = 1, UID = ''b'', Name = ''managed:teams:2'',
                Updated = 100, Created = 100\<rparr>])"
    by code_simp
  from ev di pg show ?thesis by (intro conjI)
qed

text \<open>
  C2 as stated fails under the combining strategy: the role returned for one role
  specification has the empty UID (the generated UID \<open>a\<close> is in the row stored, not in
  the role returned).
\<close>

theorem bulkCreateRoles_empty_uid_counterexample:
  "map_option (\<lambda>r. (fst r, role_table (snd r)))
     (bulkCreateRoles (mem ''postgres'') [role1] fresh_uids)
     = Some (([\<lparr>ID = 1, OrgID = 1, Version = 0, UID = [], Name = ''managed:users:1'',
                 Updated = 0, Created = 0\<rparr>], None),
             [\<lparr>ID = 1, OrgID = 1, Version = 1, UID = ''a'', Name = ''managed:users:1'',
                 Updated = 100, Created = 100\<rparr>])"
  by code_simp

end
